theory Spec2Isabelle
  imports Main
begin

section \<open>Strings and the Python built-ins the pipeline uses\<close>

text \<open>
  A Python \<open>str\<close> is modelled as a \<open>string\<close> whose characters are the code points
  below 256. On these code points the class \<open>\d\<close> of the \<open>re\<close> module is exactly
  \<open>0\<close> to \<open>9\<close>, and \<open>.\<close> is every character but the line feed. Python's \<open>int\<close> is
  \<open>int\<close>. A Python \<open>float\<close> is a value of a type parameter \<open>'f\<close>: the conversion
  and formatting functions of the interpreter on it are parameters of the model, so
  nothing is assumed about rounding.
\<close>

datatype py_error = ValueError | ZeroDivisionError

definition is_digit :: "char \<Rightarrow> bool" where
  "is_digit c = (48 \<le> (of_char c :: nat) \<and> (of_char c :: nat) \<le> 57)"

definition digit_val :: "char \<Rightarrow> int" where
  "digit_val c = int (of_char c) - 48"

definition int_of_digits :: "string \<Rightarrow> int" where
  "int_of_digits ds = foldl (\<lambda>a c. 10 * a + digit_val c) 0 ds"

text \<open>
  \<open>int(s)\<close> on a string of decimal digits. CPython refuses a string with more digits
  than its limit \<open>lim\<close> (\<open>sys.get_int_max_str_digits()\<close>, 0 when the limit is off).
\<close>

definition py_int :: "nat \<Rightarrow> string \<Rightarrow> py_error + int" where
  "py_int lim ds =
     (if 0 < lim \<and> lim < length ds then Inl ValueError else Inr (int_of_digits ds))"

text \<open>
  \<open>float(s)\<close> on a string of digits and dots, which is all the third group of the
  test-case pattern can hold: it converts when there is at least one digit and at most
  one dot, and raises \<open>ValueError\<close> otherwise. \<open>fl\<close> is the value of the conversion.
\<close>

definition float_literal :: "string \<Rightarrow> bool" where
  "float_literal s = ((\<exists>c \<in> set s. is_digit c) \<and> length (filter (\<lambda>c. c = CHR ''.'') s) \<le> 1)"

definition py_float :: "(string \<Rightarrow> 'f) \<Rightarrow> string \<Rightarrow> py_error + 'f" where
  "py_float fl s = (if float_literal s then Inr (fl s) else Inl ValueError)"

text \<open>\<open>s.split(c)\<close> for a one-character separator: one part more than separators.\<close>

fun split_on :: "char \<Rightarrow> string \<Rightarrow> string list" where
  "split_on c [] = [[]]"
| "split_on c (x # xs) =
     (if x = c then [] # split_on c xs
      else (x # hd (split_on c xs)) # tl (split_on c xs))"

section \<open>Regular expressions as backtracking matchers\<close>

text \<open>
  A pattern is a matcher in continuation-passing style: it consumes a prefix of the
  text and hands the rest (and what a group captured) to the continuation; when the
  continuation fails it tries its next alternative, as the backtracking engine of
  \<open>re\<close> does.
\<close>

fun match_lit :: "string \<Rightarrow> string \<Rightarrow> string option" where
  "match_lit [] s = Some s"
| "match_lit (p # ps) [] = None"
| "match_lit (p # ps) (c # cs) = (if p = c then match_lit ps cs else None)"

definition lit :: "string \<Rightarrow> (string \<Rightarrow> 'a option) \<Rightarrow> string \<Rightarrow> 'a option" where
  "lit p k s = (case match_lit p s of None \<Rightarrow> None | Some r \<Rightarrow> k r)"

text \<open>\<open>(p1|p2|...)\<close> as a group: the alternatives in order.\<close>

fun alt :: "string list \<Rightarrow> (string \<Rightarrow> string \<Rightarrow> 'a option) \<Rightarrow> string \<Rightarrow> 'a option" where
  "alt [] k s = None"
| "alt (p # ps) k s =
     (case lit p (k p) s of Some x \<Rightarrow> Some x | None \<Rightarrow> alt ps k s)"

text \<open>\<open>c?\<close>: greedy, so with the character first and without it second.\<close>

definition opt_chr :: "char \<Rightarrow> (string \<Rightarrow> 'a option) \<Rightarrow> string \<Rightarrow> 'a option" where
  "opt_chr c k s =
     (case lit [c] k s of Some x \<Rightarrow> Some x | None \<Rightarrow> k s)"

text \<open>
  \<open>([P]+)\<close>: greedy, so the longest run of \<open>P\<close> first, then one character less at a
  time, never fewer than one. \<open>racc\<close> is the run consumed so far, reversed.
\<close>

fun greedy_back :: "(string \<Rightarrow> string \<Rightarrow> 'a option) \<Rightarrow> string \<Rightarrow> string \<Rightarrow> 'a option" where
  "greedy_back k [] rest = None"
| "greedy_back k (c # racc) rest =
     (case k (rev (c # racc)) rest of Some x \<Rightarrow> Some x
      | None \<Rightarrow> greedy_back k racc (c # rest))"

definition greedy_plus :: "(char \<Rightarrow> bool) \<Rightarrow> (string \<Rightarrow> string \<Rightarrow> 'a option) \<Rightarrow> string \<Rightarrow> 'a option" where
  "greedy_plus P k s = greedy_back k (rev (takeWhile P s)) (dropWhile P s)"

text \<open>\<open>([P]*?)\<close>: lazy, so the shortest run first, then one character more at a time.\<close>

fun lazy_back :: "(char \<Rightarrow> bool) \<Rightarrow> (string \<Rightarrow> string \<Rightarrow> 'a option) \<Rightarrow> string \<Rightarrow> string \<Rightarrow> 'a option" where
  "lazy_back P k racc [] = k (rev racc) []"
| "lazy_back P k racc (c # cs) =
     (case k (rev racc) (c # cs) of Some x \<Rightarrow> Some x
      | None \<Rightarrow> if P c then lazy_back P k (c # racc) cs else None)"

definition lazy_star :: "(char \<Rightarrow> bool) \<Rightarrow> (string \<Rightarrow> string \<Rightarrow> 'a option) \<Rightarrow> string \<Rightarrow> 'a option" where
  "lazy_star P k s = lazy_back P k [] s"

text \<open>\<open>re.search\<close>: the match at the leftmost position that has one.\<close>

fun re_search :: "(string \<Rightarrow> 'a option) \<Rightarrow> string \<Rightarrow> 'a option" where
  "re_search m [] = m []"
| "re_search m (c # cs) =
     (case m (c # cs) of Some x \<Rightarrow> Some x | None \<Rightarrow> re_search m cs)"

section \<open>TestParser\<close>

record 'f TestResult =
  name :: string
  status :: string
  duration :: 'f

definition any_char :: "char \<Rightarrow> bool" where
  "any_char c = (c \<noteq> CHR 0x0A)"

definition dur_char :: "char \<Rightarrow> bool" where
  "dur_char c = (is_digit c \<or> c = CHR ''.'')"

text \<open>
  \<open>Test Case '(.*?)' (passed|failed) \(([\d.]+) seconds\)\<close> at the start of the text:
  the three groups and the text after the match.
\<close>

definition test_case_pattern :: "string \<Rightarrow> ((string \<times> string \<times> string) \<times> string) option" where
  "test_case_pattern =
     lit (''Test Case '' @ [CHR 0x27])
       (lazy_star any_char (\<lambda>g1.
          lit (CHR 0x27 # '' '')
            (alt [''passed'', ''failed''] (\<lambda>g2.
               lit '' (''
                 (greedy_plus dur_char (\<lambda>g3.
                    lit '' seconds)'' (\<lambda>rest. Some ((g1, g2, g3), rest))))))))"

text \<open>\<open>Executed (\d+) tests?, with (\d+) failures?\<close> at the start of the text.\<close>

definition summary_pattern :: "string \<Rightarrow> (string \<times> string) option" where
  "summary_pattern =
     lit ''Executed ''
       (greedy_plus is_digit (\<lambda>g1.
          lit '' test''
            (opt_chr CHR ''s''
               (lit '', with ''
                  (greedy_plus is_digit (\<lambda>g2.
                     lit '' failure''
                       (opt_chr CHR ''s'' (\<lambda>rest. Some (g1, g2)))))))))"

subsection \<open>What a successful match says about the text\<close>

lemma match_lit_Some: "match_lit p s = Some r \<longleftrightarrow> s = p @ r"
proof (induction p arbitrary: s)
  case Nil
  then show ?case by auto
next
  case (Cons a p)
  then show ?case by (cases s) auto
qed

lemma match_lit_append: "match_lit p (p @ r) = Some r"
  by (simp add: match_lit_Some)

lemma lit_Some: "lit p k s = Some x \<longleftrightarrow> (\<exists>r. s = p @ r \<and> k r = Some x)"
  by (cases "match_lit p s") (auto simp: lit_def match_lit_Some match_lit_append)

lemma alt_SomeD:
  "alt ps k s = Some x \<Longrightarrow> \<exists>p r. p \<in> set ps \<and> s = p @ r \<and> k p r = Some x"
  by (induction ps) (auto simp: lit_Some split: option.splits)

lemma opt_chr_SomeD:
  "opt_chr c k s = Some x \<Longrightarrow> (\<exists>r. s = c # r \<and> k r = Some x) \<or> k s = Some x"
  by (auto simp: opt_chr_def lit_Some split: option.splits)

lemma greedy_back_SomeD:
  "greedy_back k racc rest = Some x \<Longrightarrow>
     \<exists>d r. d \<noteq> [] \<and> rev racc @ rest = d @ r \<and> set d \<subseteq> set racc \<and> k d r = Some x"
proof (induction racc arbitrary: rest)
  case Nil
  then show ?case by simp
next
  case (Cons c racc)
  show ?case
  proof (cases "k (rev (c # racc)) rest")
    case None
    with Cons.prems have "greedy_back k racc (c # rest) = Some x" by simp
    from Cons.IH[OF this] show ?thesis by auto
  next
    case (Some y)
    with Cons.prems have "k (rev (c # racc)) rest = Some x" by simp
    then show ?thesis by (intro exI[of _ "rev (c # racc)"] exI[of _ rest]) auto
  qed
qed

lemma greedy_plus_SomeD:
  assumes "greedy_plus P k s = Some x"
  shows "\<exists>d r. d \<noteq> [] \<and> s = d @ r \<and> (\<forall>c \<in> set d. P c) \<and> k d r = Some x"
proof -
  from greedy_back_SomeD[OF assms[unfolded greedy_plus_def]]
  obtain d r where d: "d \<noteq> []" "takeWhile P s @ dropWhile P s = d @ r"
    "set d \<subseteq> set (takeWhile P s)" "k d r = Some x" by auto
  have "\<forall>c \<in> set d. P c" using d(3) by (auto dest: set_takeWhileD)
  with d show ?thesis by auto
qed

lemma lazy_back_SomeD:
  "lazy_back P k racc s = Some x \<Longrightarrow>
     \<exists>n r. s = n @ r \<and> (\<forall>c \<in> set n. P c) \<and> k (rev racc @ n) r = Some x"
proof (induction s arbitrary: racc)
  case Nil
  then show ?case by simp
next
  case (Cons c cs)
  show ?case
  proof (cases "k (rev racc) (c # cs)")
    case (Some y)
    with Cons.prems have "k (rev racc) (c # cs) = Some x" by simp
    then show ?thesis by (intro exI[of _ "[]"] exI[of _ "c # cs"]) simp
  next
    case None
    with Cons.prems have pc: "P c" and "lazy_back P k (c # racc) cs = Some x"
      by (auto split: if_splits)
    from Cons.IH[OF this(2)] obtain n r where
      "cs = n @ r" "\<forall>c \<in> set n. P c" "k (rev (c # racc) @ n) r = Some x" by auto
    with pc show ?thesis by (intro exI[of _ "c # n"] exI[of _ r]) simp
  qed
qed

lemma lazy_star_SomeD:
  "lazy_star P k s = Some x \<Longrightarrow> \<exists>n r. s = n @ r \<and> (\<forall>c \<in> set n. P c) \<and> k n r = Some x"
  using lazy_back_SomeD[of P k "[]" s x] by (simp add: lazy_star_def)

lemma test_case_pattern_SomeD:
  assumes "test_case_pattern s = Some ((g1, g2, g3), rest)"
  shows "s = ''Test Case '' @ [CHR 0x27] @ g1 @ CHR 0x27 # '' '' @ g2 @ '' ('' @ g3 @ '' seconds)'' @ rest"
    and "\<forall>c \<in> set g1. any_char c"
    and "g2 = ''passed'' \<or> g2 = ''failed''"
    and "g3 \<noteq> []" and "\<forall>c \<in> set g3. dur_char c"
proof -
  from assms obtain r1 where r1: "s = (''Test Case '' @ [CHR 0x27]) @ r1"
    and m1: "lazy_star any_char (\<lambda>g1.
          lit (CHR 0x27 # '' '')
            (alt [''passed'', ''failed''] (\<lambda>g2.
               lit '' (''
                 (greedy_plus dur_char (\<lambda>g3.
                    lit '' seconds)'' (\<lambda>rest. Some ((g1, g2, g3), rest))))))) r1 = Some ((g1, g2, g3), rest)"
    unfolding test_case_pattern_def lit_Some by blast
  from lazy_star_SomeD[OF m1] obtain n r2 where r2: "r1 = n @ r2" "\<forall>c \<in> set n. any_char c"
    and m2: "lit (CHR 0x27 # '' '')
            (alt [''passed'', ''failed''] (\<lambda>g2.
               lit '' (''
                 (greedy_plus dur_char (\<lambda>g3.
                    lit '' seconds)'' (\<lambda>rest. Some ((n, g2, g3), rest)))))) r2 = Some ((g1, g2, g3), rest)"
    by blast
  from m2 obtain r3 where r3: "r2 = (CHR 0x27 # '' '') @ r3"
    and m3: "alt [''passed'', ''failed''] (\<lambda>g2.
               lit '' (''
                 (greedy_plus dur_char (\<lambda>g3.
                    lit '' seconds)'' (\<lambda>rest. Some ((n, g2, g3), rest))))) r3 = Some ((g1, g2, g3), rest)"
    unfolding lit_Some by blast
  from alt_SomeD[OF m3] obtain p r4 where r4: "p \<in> set [''passed'', ''failed'']" "r3 = p @ r4"
    and m4: "lit '' (''
                 (greedy_plus dur_char (\<lambda>g3.
                    lit '' seconds)'' (\<lambda>rest. Some ((n, p, g3), rest)))) r4 = Some ((g1, g2, g3), rest)"
    by blast
  from m4 obtain r5 where r5: "r4 = '' ('' @ r5"
    and m5: "greedy_plus dur_char (\<lambda>g3.
                    lit '' seconds)'' (\<lambda>rest. Some ((n, p, g3), rest))) r5 = Some ((g1, g2, g3), rest)"
    unfolding lit_Some by blast
  from greedy_plus_SomeD[OF m5] obtain d r6 where r6: "d \<noteq> []" "r5 = d @ r6" "\<forall>c \<in> set d. dur_char c"
    and m6: "lit '' seconds)'' (\<lambda>rest. Some ((n, p, d), rest)) r6 = Some ((g1, g2, g3), rest)"
    by blast
  from m6 have e: "r6 = '' seconds)'' @ rest" "n = g1" "p = g2" "d = g3"
    unfolding lit_Some by auto
  show "s = ''Test Case '' @ [CHR 0x27] @ g1 @ CHR 0x27 # '' '' @ g2 @ '' ('' @ g3 @ '' seconds)'' @ rest"
    using r1 r2 r3 r4 r5 r6 e by simp
  show "\<forall>c \<in> set g1. any_char c" using r2 e by simp
  show "g2 = ''passed'' \<or> g2 = ''failed''" using r4 e by auto
  show "g3 \<noteq> []" using r6 e by simp
  show "\<forall>c \<in> set g3. dur_char c" using r6 e by simp
qed

lemma test_case_pattern_shorter:
  "test_case_pattern s = Some (g, rest) \<Longrightarrow> length rest < length s"
  by (cases g) (auto dest!: test_case_pattern_SomeD(1))

text \<open>
  \<open>re.finditer\<close> with the test-case pattern: the matches from left to right, each
  search starting where the previous match ended. The pattern matches no empty text,
  so there is no match at the end of the text.
\<close>

function finditer_tests :: "string \<Rightarrow> (string \<times> string \<times> string) list" where
  "finditer_tests [] = []"
| "finditer_tests (c # cs) =
     (case test_case_pattern (c # cs) of
        Some (g, rest) \<Rightarrow> g # finditer_tests rest
      | None \<Rightarrow> finditer_tests cs)"
  by pat_completeness auto
termination
  by (relation "measure length") (auto dest: test_case_pattern_shorter)

text \<open>
  The name of a record: the last two dot-separated components of the identifier when
  it has a dot. \<open>parts[-2]\<close> and \<open>parts[-1]\<close> are read only under the source's test
  \<open>len(parts) >= 2\<close>.
\<close>

definition normalize_name :: "string \<Rightarrow> string" where
  "normalize_name test_name =
     (if CHR ''.'' \<in> set test_name then
        (let parts = split_on CHR ''.'' test_name in
         if length parts \<ge> 2
         then parts ! (length parts - 2) @ ''.'' @ parts ! (length parts - 1)
         else test_name)
      else test_name)"

text \<open>
  The loop over the matches: \<open>float\<close> of the third group may raise, which ends the
  call; otherwise one record is appended.
\<close>

fun collect_tests :: "(string \<Rightarrow> 'f) \<Rightarrow> (string \<times> string \<times> string) list \<Rightarrow> 'f TestResult list
    \<Rightarrow> py_error + 'f TestResult list" where
  "collect_tests fl [] tests = Inr tests"
| "collect_tests fl ((g1, g2, g3) # ms) tests =
     (case py_float fl g3 of
        Inl e \<Rightarrow> Inl e
      | Inr d \<Rightarrow> collect_tests fl ms
          (tests @ [\<lparr>name = normalize_name g1, status = g2, duration = d\<rparr>]))"

definition count_status :: "string \<Rightarrow> 'f TestResult list \<Rightarrow> int" where
  "count_status st tests = int (length (filter (\<lambda>t. status t = st) tests))"

text \<open>
  \<open>TestParser.parse_results\<close>: the records and \<open>(total, passed, failed)\<close>, or the
  exception that leaves the call. \<open>lim\<close> is the interpreter's limit on the digits of
  \<open>int(s)\<close> and \<open>fl\<close> the value of \<open>float(s)\<close>.
\<close>

definition parse_results :: "nat \<Rightarrow> (string \<Rightarrow> 'f) \<Rightarrow> string
    \<Rightarrow> py_error + ('f TestResult list \<times> int \<times> int \<times> int)" where
  "parse_results lim fl output =
     (case collect_tests fl (finditer_tests output) [] of
        Inl e \<Rightarrow> Inl e
      | Inr tests \<Rightarrow>
          (case re_search summary_pattern output of
             Some (g1, g2) \<Rightarrow>
               (case py_int lim g1 of
                  Inl e \<Rightarrow> Inl e
                | Inr total' \<Rightarrow>
                    (case py_int lim g2 of
                       Inl e \<Rightarrow> Inl e
                     | Inr failed' \<Rightarrow> Inr (tests, total', total' - failed', failed')))
           | None \<Rightarrow>
               if tests \<noteq> []
               then Inr (tests, int (length tests),
                         count_status ''passed'' tests, count_status ''failed'' tests)
               else Inr (tests, 0, 0, 0)))"

section \<open>DiagnosticsEngine\<close>

text \<open>
  The fields \<open>file\<close> and \<open>line\<close> of the source are \<open>issue_file\<close> and \<open>issue_line\<close>.
\<close>

record DiagnosticIssue =
  category :: string
  severity :: string
  message :: string
  issue_file :: "string option"
  issue_line :: "int option"

text \<open>
  \<open>str.lower\<close>, \<open>str.strip\<close> and the substring test \<open>sub in s\<close> on code points below
  256: the upper-case letters are \<open>A\<close> to \<open>Z\<close> and U+00C0 to U+00DE without U+00D7;
  the white space is U+0009 to U+000D, U+001C to U+0020, U+0085 and U+00A0.
\<close>

definition lower_char :: "char \<Rightarrow> char" where
  "lower_char c =
     (let n = (of_char c :: nat) in
      if (65 \<le> n \<and> n \<le> 90) \<or> (192 \<le> n \<and> n \<le> 222 \<and> n \<noteq> 215)
      then char_of (n + 32) else c)"

definition lower :: "string \<Rightarrow> string" where
  "lower s = map lower_char s"

definition is_space :: "char \<Rightarrow> bool" where
  "is_space c =
     (let n = (of_char c :: nat) in
      (9 \<le> n \<and> n \<le> 13) \<or> (28 \<le> n \<and> n \<le> 32) \<or> n = 133 \<or> n = 160)"

definition strip :: "string \<Rightarrow> string" where
  "strip s = rev (dropWhile is_space (rev (dropWhile is_space s)))"

fun contains :: "string \<Rightarrow> string \<Rightarrow> bool" where
  "contains sub [] = (sub = [])"
| "contains sub (c # cs) = (match_lit sub (c # cs) \<noteq> None \<or> contains sub cs)"

text \<open>
  \<open>DiagnosticsEngine.analyze_build_output\<close>: the loop over the lines of the output,
  \<open>issues\<close> being the list it appends to.
\<close>

fun build_loop :: "string list \<Rightarrow> DiagnosticIssue list \<Rightarrow> DiagnosticIssue list" where
  "build_loop [] issues = issues"
| "build_loop (l # ls) issues =
     (if contains ''error:'' (lower l) then
        build_loop ls (issues @
          [\<lparr>category = ''Build Error'', severity = ''critical'', message = strip l,
            issue_file = None, issue_line = None\<rparr>])
      else if contains ''warning:'' (lower l) then
        build_loop ls (issues @
          [\<lparr>category = ''Build Warning'', severity = ''warning'', message = strip l,
            issue_file = None, issue_line = None\<rparr>])
      else build_loop ls issues)"

definition analyze_build_output :: "string \<Rightarrow> DiagnosticIssue list" where
  "analyze_build_output output = build_loop (split_on CHR 0x0A output) []"

text \<open>\<open>str(n)\<close> of a natural number: its decimal digits.\<close>

fun str_nat :: "nat \<Rightarrow> string" where
  "str_nat n =
     (if n < 10 then [char_of (48 + n)]
      else str_nat (n div 10) @ [char_of (48 + n mod 10)])"

declare str_nat.simps [simp del]






section \<open>CommandRunner\<close>

text \<open>
  What the operating system does is a parameter: \<open>popen cmd cwd\<close> is the result of
  \<open>subprocess.Popen\<close>, an exception or a process. An exception is of class
  \<open>Exception\<close> or outside it (\<open>KeyboardInterrupt\<close>, \<open>SystemExit\<close>), and carries its text
  \<open>str(e)\<close>. A process is the successive results of \<open>process.stdout.readline()\<close>, each
  a line or an exception (an empty line, or the end of the list, is the end of the
  stream), and the exit status that \<open>process.wait()\<close> leaves in \<open>returncode\<close>. The
  sink \<open>callback\<close> may be absent; called on a line it changes its own state \<open>'s\<close> or
  raises.
\<close>

datatype exn = Exception (exn_str: string) | BaseException (exn_str: string)

datatype read_result = Line string | Raise exn

record process =
  stdout_reads :: "read_result list"
  returncode :: int

text \<open>
  The loop over \<open>iter(process.stdout.readline, <empty string>)\<close>: the lines appended
  so far and the state of the sink, or the exception that ends the loop.
\<close>

fun read_lines :: "read_result list \<Rightarrow> ('s \<Rightarrow> string \<Rightarrow> exn + 's) option \<Rightarrow> 's \<Rightarrow> string list
    \<Rightarrow> (exn + string list) \<times> 's" where
  "read_lines [] callback s output_lines = (Inr output_lines, s)"
| "read_lines (Raise e # reads) callback s output_lines = (Inl e, s)"
| "read_lines (Line l # reads) callback s output_lines =
     (if l = [] then (Inr output_lines, s)
      else (case callback of
              None \<Rightarrow> read_lines reads callback s (output_lines @ [l])
            | Some cb \<Rightarrow>
                (case cb s l of
                   Inl e \<Rightarrow> (Inl e, s)
                 | Inr s' \<Rightarrow> read_lines reads callback s' (output_lines @ [l]))))"

text \<open>
  \<open>except Exception as e: return False, "", str(e)\<close>: an exception of class
  \<open>Exception\<close> becomes the returned triple, any other leaves the call.
\<close>

definition except_Exception :: "exn \<Rightarrow> exn + bool \<times> string \<times> string" where
  "except_Exception e =
     (case e of Exception m \<Rightarrow> Inr (False, [], m) | BaseException m \<Rightarrow> Inl (BaseException m))"

text \<open>
  \<open>CommandRunner.run\<close>: the triple \<open>(succeeded, output, error)\<close> it returns or the
  exception that leaves it, and the state of the sink afterwards.
\<close>

definition run :: "(string list \<Rightarrow> string \<Rightarrow> exn + process) \<Rightarrow> string list \<Rightarrow> string
    \<Rightarrow> ('s \<Rightarrow> string \<Rightarrow> exn + 's) option \<Rightarrow> 's \<Rightarrow> (exn + bool \<times> string \<times> string) \<times> 's" where
  "run popen cmd cwd callback s0 =
     (case popen cmd cwd of
        Inl e \<Rightarrow> (except_Exception e, s0)
      | Inr process \<Rightarrow>
          (case read_lines (stdout_reads process) callback s0 [] of
             (Inl e, s) \<Rightarrow> (except_Exception e, s)
           | (Inr output_lines, s) \<Rightarrow>
               (Inr (returncode process = 0, concat output_lines, []), s)))"

section \<open>ReportGenerator\<close>

text \<open>\<open>str(i)\<close> of an integer.\<close>

definition str_int :: "int \<Rightarrow> string" where
  "str_int i = (if i < 0 then ''-'' @ str_nat (nat (- i)) else str_nat (nat i))"

text \<open>The field \<open>name\<close> of the source's \<open>ProjectConfig\<close> is \<open>config_name\<close>.\<close>

record ProjectConfig =
  path :: string
  config_name :: string
  project_file :: string
  scheme :: string
  is_workspace :: bool
  bundle_id :: "string option"

text \<open>
  What the interpreter and the clock supply to the renderer is a parameter: the true
  division of two integers by a nonzero divisor, the product of a float and an
  integer, \<open>format(x, '.nf')\<close> and \<open>str(x)\<close> of a float, \<open>str.upper\<close>, and the two texts
  of \<open>datetime.now().strftime\<close>. The template's style sheet (the text between
  \<open><style>\<close> and \<open></style>\<close>, which holds no interpolation) and its characters outside
  ASCII (\<open>glyph\<close> of the hexadecimal code point) are parameters as well; every other
  character of the template is written out.
\<close>

record 'f runtime =
  truediv :: "int \<Rightarrow> int \<Rightarrow> 'f"
  mul_int :: "'f \<Rightarrow> int \<Rightarrow> 'f"
  format_f :: "nat \<Rightarrow> 'f \<Rightarrow> string"
  str_float :: "'f \<Rightarrow> string"
  upper :: "string \<Rightarrow> string"
  now_long :: string
  now_year :: string
  style_sheet :: string
  glyph :: "string \<Rightarrow> string"

text \<open>
  The value of \<open>(passed/total*100) if total > 0 else 0\<close> is a float or the integer 0.
  \<open>format(n, '.1f')\<close> of an integer \<open>n\<close> is its digits and \<open>.0\<close> (only \<open>n = 0\<close> occurs).
\<close>

datatype 'f num = PyInt int | PyFloat 'f

definition py_truediv :: "'f runtime \<Rightarrow> int \<Rightarrow> int \<Rightarrow> py_error + 'f" where
  "py_truediv rt a b = (if b = 0 then Inl ZeroDivisionError else Inr (truediv rt a b))"

definition success_rate :: "'f runtime \<Rightarrow> int \<Rightarrow> int \<Rightarrow> py_error + 'f num" where
  "success_rate rt passed total' =
     (if total' > 0 then
        (case py_truediv rt passed total' of
           Inl e \<Rightarrow> Inl e
         | Inr q \<Rightarrow> Inr (PyFloat (mul_int rt q 100)))
      else Inr (PyInt 0))"

definition format_1f :: "'f runtime \<Rightarrow> 'f num \<Rightarrow> string" where
  "format_1f rt v = (case v of PyFloat x \<Rightarrow> format_f rt 1 x | PyInt n \<Rightarrow> str_int n @ ''.0'')"

definition str_num :: "'f runtime \<Rightarrow> 'f num \<Rightarrow> string" where
  "str_num rt v = (case v of PyFloat x \<Rightarrow> str_float rt x | PyInt n \<Rightarrow> str_int n)"

definition count_severity :: "string \<Rightarrow> DiagnosticIssue list \<Rightarrow> int" where
  "count_severity s issues = int (length (filter (\<lambda>i. severity i = s) issues))"

text \<open>The literals of the template, in the order of the source.\<close>

definition html_head :: "'f runtime \<Rightarrow> ProjectConfig \<Rightarrow> bool \<Rightarrow> int \<Rightarrow> int \<Rightarrow> int \<Rightarrow> string \<Rightarrow> int
    \<Rightarrow> string \<Rightarrow> string" where
  \<open>html_head rt project_config build_success passed total' failed rate_1f n_issues rate_str =
      ''<!DOCTYPE html>\<newline>'' @
      ''<html>\<newline>'' @
      ''<head>\<newline>'' @
      ''    <meta charset="UTF-8">\<newline>'' @
      ''    <meta name="viewport" content="width=device-width, initial-scale=1.0">\<newline>'' @
      ''    <title>Ultimate Pipeline Report - '' @
      config_name project_config @
      ''</title>\<newline>'' @
      ''    <style>'' @
      style_sheet rt @
      ''</style>\<newline>'' @
      ''</head>\<newline>'' @
      ''<body>\<newline>'' @
      ''    <div class="container">\<newline>'' @
      ''        <div class="header">\<newline>'' @
      ''            <h1>'' @
      glyph rt ''1F680'' @
      '' Ultimate Pipeline Report</h1>\<newline>'' @
      ''            <p class="subtitle">Generated on '' @
      now_long rt @
      ''</p>\<newline>'' @
      ''        </div>\<newline>'' @
      ''\<newline>'' @
      ''        <div class="project-info" style="margin: 30px 40px 0;">\<newline>'' @
      ''            <h2 style="margin-bottom: 20px; color: #333;">'' @
      glyph rt ''1F4E6'' @
      '' Project Information</h2>\<newline>'' @
      ''            <table>\<newline>'' @
      ''                <tr>\<newline>'' @
      ''                    <td>Project Name</td>\<newline>'' @
      ''                    <td><strong>'' @
      config_name project_config @
      ''</strong></td>\<newline>'' @
      ''                </tr>\<newline>'' @
      ''                <tr>\<newline>'' @
      ''                    <td>Project Type</td>\<newline>'' @
      ''                    <td>'' @
      (if is_workspace project_config then ''Workspace'' else ''Project'') @
      ''</td>\<newline>'' @
      ''                </tr>\<newline>'' @
      ''                <tr>\<newline>'' @
      ''                    <td>Scheme</td>\<newline>'' @
      ''                    <td>'' @
      scheme project_config @
      ''</td>\<newline>'' @
      ''                </tr>\<newline>'' @
      ''                <tr>\<newline>'' @
      ''                    <td>Bundle ID</td>\<newline>'' @
      ''                    <td>'' @
      (case bundle_id project_config of None \<Rightarrow> ''N/A'' | Some b \<Rightarrow> if b = [] then ''N/A'' else b) @
      ''</td>\<newline>'' @
      ''                </tr>\<newline>'' @
      ''                <tr>\<newline>'' @
      ''                    <td>Build Status</td>\<newline>'' @
      ''                    <td><span class="badge '' @
      (if build_success then ''success'' else ''error'') @
      ''">'' @
      (if build_success then ''SUCCESS'' else ''FAILED'') @
      ''</span></td>\<newline>'' @
      ''                </tr>\<newline>'' @
      ''            </table>\<newline>'' @
      ''        </div>\<newline>'' @
      ''\<newline>'' @
      ''        <div class="stats-grid">\<newline>'' @
      ''            <div class="stat-card success">\<newline>'' @
      ''                <h3>Tests Passed</h3>\<newline>'' @
      ''                <div class="number">'' @
      str_int passed @
      ''</div>\<newline>'' @
      ''                <div class="label">of '' @
      str_int total' @
      '' tests</div>\<newline>'' @
      ''            </div>\<newline>'' @
      ''            <div class="stat-card warning">\<newline>'' @
      ''                <h3>Tests Failed</h3>\<newline>'' @
      ''                <div class="number">'' @
      str_int failed @
      ''</div>\<newline>'' @
      ''                <div class="label">require attention</div>\<newline>'' @
      ''            </div>\<newline>'' @
      ''            <div class="stat-card info">\<newline>'' @
      ''                <h3>Success Rate</h3>\<newline>'' @
      ''                <div class="number">'' @
      rate_1f @
      ''%</div>\<newline>'' @
      ''                <div class="label">overall performance</div>\<newline>'' @
      ''            </div>\<newline>'' @
      ''            <div class="stat-card warning">\<newline>'' @
      ''                <h3>Issues Found</h3>\<newline>'' @
      ''                <div class="number">'' @
      str_int n_issues @
      ''</div>\<newline>'' @
      ''                <div class="label">diagnostics</div>\<newline>'' @
      ''            </div>\<newline>'' @
      ''        </div>\<newline>'' @
      ''\<newline>'' @
      ''        <div class="content">\<newline>'' @
      ''            <div class="section">\<newline>'' @
      ''                <h2>'' @
      glyph rt ''1F9EA'' @
      '' Test Results</h2>\<newline>'' @
      ''                <div class="progress-bar">\<newline>'' @
      ''                    <div class="progress-fill" style="width: '' @
      rate_str @
      ''%"></div>\<newline>'' @
      ''                </div>\<newline>'' @
      ''                <div class="test-grid">\<newline>''\<close>

definition test_item :: "'f runtime \<Rightarrow> 'f TestResult \<Rightarrow> string" where
  \<open>test_item rt test =
     (let status_class = (if status test = ''passed'' then ''passed'' else ''failed'');
          status_emoji = (if status test = ''passed'' then glyph rt ''2705'' else glyph rt ''274C'')
      in
      ''\<newline>'' @
      ''                    <div class="test-item '' @
      status_class @
      ''">\<newline>'' @
      ''                        <div class="test-name">'' @
      status_emoji @
      '' '' @
      name test @
      ''</div>\<newline>'' @
      ''                        <div class="test-meta">\<newline>'' @
      ''                            <span class="badge '' @
      (if status test = ''passed'' then ''success'' else ''error'') @
      ''">'' @
      upper rt (status test) @
      ''</span>\<newline>'' @
      ''                            <span>'' @
      glyph rt ''23F1'' @
      glyph rt ''FE0F'' @
      '' '' @
      format_f rt 3 (duration test) @
      ''s</span>\<newline>'' @
      ''                        </div>\<newline>'' @
      ''                    </div>\<newline>'')\<close>

definition more_tests :: "int \<Rightarrow> string" where
  \<open>more_tests n_tests =
      ''\<newline>'' @
      ''                    <div class="test-item">\<newline>'' @
      ''                        <div class="test-name">... and '' @
      str_int (n_tests - 50) @
      '' more tests</div>\<newline>'' @
      ''                    </div>\<newline>''\<close>

definition tests_close :: string where
  \<open>tests_close =
      ''\<newline>'' @
      ''                </div>\<newline>'' @
      ''            </div>\<newline>''\<close>

definition issues_open :: "'f runtime \<Rightarrow> string" where
  \<open>issues_open rt =
      ''\<newline>'' @
      ''            <div class="section">\<newline>'' @
      ''                <h2>'' @
      glyph rt ''26A0'' @
      glyph rt ''FE0F'' @
      '' Diagnostic Issues</h2>\<newline>'' @
      ''                <ul class="issue-list">\<newline>''\<close>

definition issue_item :: "'f runtime \<Rightarrow> DiagnosticIssue \<Rightarrow> string" where
  \<open>issue_item rt issue =
      ''\<newline>'' @
      ''                    <li class="issue-item '' @
      severity issue @
      ''">\<newline>'' @
      ''                        <div style="display: flex; justify-content: space-between; align-items: center;">\<newline>'' @
      ''                            <div>\<newline>'' @
      ''                                <strong>'' @
      category issue @
      ''</strong>\<newline>'' @
      ''                                <p style="margin-top: 8px; color: #666;">'' @
      message issue @
      ''</p>\<newline>'' @
      ''                                '' @
      (case issue_file issue of None \<Rightarrow> [] | Some f \<Rightarrow> if f = [] then [] else ''<p style="margin-top: 5px; font-size: 0.85em; color: #999;">'' @ glyph rt ''1F4C4'' @ '' '' @ f @ ''</p>'') @
      ''\<newline>'' @
      ''                            </div>\<newline>'' @
      ''                            <span class="badge '' @
      severity issue @
      ''">'' @
      upper rt (severity issue) @
      ''</span>\<newline>'' @
      ''                        </div>\<newline>'' @
      ''                    </li>\<newline>''\<close>

definition more_issues :: "int \<Rightarrow> string" where
  \<open>more_issues n_issues =
      ''\<newline>'' @
      ''                    <li class="issue-item info">\<newline>'' @
      ''                        <strong>... and '' @
      str_int (n_issues - 100) @
      '' more issues</strong>\<newline>'' @
      ''                    </li>\<newline>''\<close>

definition issues_close :: string where
  \<open>issues_close =
      ''\<newline>'' @
      ''                </ul>\<newline>'' @
      ''            </div>\<newline>''\<close>

definition html_foot :: "'f runtime \<Rightarrow> string" where
  \<open>html_foot rt =
      ''\<newline>'' @
      ''        </div>\<newline>'' @
      ''\<newline>'' @
      ''        <div class="footer">\<newline>'' @
      ''            <p><strong>Ultimate Pipeline Tool</strong></p>\<newline>'' @
      ''            <p>Comprehensive Xcode Build, Test & Diagnostics Platform</p>\<newline>'' @
      ''            <p style="margin-top: 15px; opacity: 0.7;">Report generated in '' @
      now_year rt @
      ''</p>\<newline>'' @
      ''        </div>\<newline>'' @
      ''    </div>\<newline>'' @
      ''</body>\<newline>'' @
      ''</html>\<newline>''\<close>

text \<open>
  \<open>ReportGenerator.generate_html\<close>. The three severity counts are computed as in the
  source, which uses them nowhere. The rate expression is evaluated at both places
  of the template where it stands.
\<close>

definition generate_html :: "'f runtime \<Rightarrow> ProjectConfig \<Rightarrow> 'f TestResult list \<Rightarrow> DiagnosticIssue list
    \<Rightarrow> bool \<Rightarrow> py_error + string" where
  "generate_html rt project_config tests issues build_success =
     (let passed = count_status ''passed'' tests;
          failed = count_status ''failed'' tests;
          total' = int (length tests);
          critical_issues = count_severity ''critical'' issues;
          warning_issues = count_severity ''warning'' issues;
          info_issues = count_severity ''info'' issues
      in
      case success_rate rt passed total' of
        Inl e \<Rightarrow> Inl e
      | Inr rate1 \<Rightarrow>
          (case success_rate rt passed total' of
             Inl e \<Rightarrow> Inl e
           | Inr rate2 \<Rightarrow>
               (let html = html_head rt project_config build_success passed total' failed
                      (format_1f rt rate1) (int (length issues)) (str_num rt rate2);
                    html = foldl (\<lambda>html test. html @ test_item rt test) html (take 50 tests);
                    html = (if length tests > 50 then html @ more_tests (int (length tests)) else html);
                    html = html @ tests_close;
                    html =
                      (if issues \<noteq> [] then
                         (let html = html @ issues_open rt;
                              html = foldl (\<lambda>html issue. html @ issue_item rt issue) html (take 100 issues);
                              html = (if length issues > 100
                                      then html @ more_issues (int (length issues)) else html)
                          in html @ issues_close)
                       else html)
                in Inr (html @ html_foot rt))))"

section \<open>Notions of the specification and sample inputs\<close>

text \<open>Two test-case lines, one passed and one failed, and no summary line.\<close>

definition two_cases :: string where
  "two_cases =
     ''Test Case '' @ [CHR 0x27] @ ''A.B.c'' @ [CHR 0x27] @ '' passed (0.12 seconds)\<newline>'' @
     ''Test Case '' @ [CHR 0x27] @ ''x'' @ [CHR 0x27] @ '' failed (1. seconds)''"

text \<open>
  The spec's words for "the text contains a summary line": at offset \<open>i\<close> the text
  reads \<open>Executed N test(s), with F failure\<close> for two non-empty strings of digits
  \<open>N\<close> and \<open>F\<close>. These three definitions follow the spec, not the code; the lemmas
  below relate them to the matcher.
\<close>

definition number :: "string \<Rightarrow> bool" where
  "number ds = (ds \<noteq> [] \<and> list_all is_digit ds)"

definition summary_text :: "string \<Rightarrow> string \<Rightarrow> bool \<Rightarrow> string" where
  "summary_text n f plural =
     ''Executed '' @ n @ '' test'' @ (if plural then ''s'' else []) @ '', with '' @ f @ '' failure''"

definition summary_at :: "string \<Rightarrow> nat \<Rightarrow> string \<Rightarrow> string \<Rightarrow> bool" where
  "summary_at output i n f =
     (i \<le> length output \<and> number n \<and> number f \<and>
      (\<exists>plural rest. drop i output = summary_text n f plural @ rest))"

text \<open>A summary line of 12 tests with 3 failures, and five test-case lines.\<close>

definition summary_and_five :: string where
  "summary_and_five =
     ''Executed 12 tests, with 3 failures\<newline>'' @
     ''Test Case '' @ [CHR 0x27] @ ''S.a'' @ [CHR 0x27] @ '' passed (0.1 seconds)\<newline>'' @
     ''Test Case '' @ [CHR 0x27] @ ''S.b'' @ [CHR 0x27] @ '' passed (0.2 seconds)\<newline>'' @
     ''Test Case '' @ [CHR 0x27] @ ''S.c'' @ [CHR 0x27] @ '' failed (0.3 seconds)\<newline>'' @
     ''Test Case '' @ [CHR 0x27] @ ''S.d'' @ [CHR 0x27] @ '' passed (0.4 seconds)\<newline>'' @
     ''Test Case '' @ [CHR 0x27] @ ''S.e'' @ [CHR 0x27] @ '' passed (0.5 seconds)''"

text \<open>
  The record of every match, in the order of the matches, and the texts \<open>int\<close>
  converts under the limit \<open>lim\<close>.
\<close>

definition records_of :: "(string \<Rightarrow> 'f) \<Rightarrow> (string \<times> string \<times> string) list \<Rightarrow> 'f TestResult list" where
  "records_of fl ms =
     map (\<lambda>g. \<lparr>name = normalize_name (fst g), status = fst (snd g), duration = fl (snd (snd g))\<rparr>) ms"

definition fits :: "nat \<Rightarrow> string \<Rightarrow> bool" where
  "fits lim ds = (lim = 0 \<or> length ds \<le> lim)"

text \<open>A summary line followed by a test-case line whose duration is no float literal.\<close>

definition summary_and_bad_duration :: string where
  "summary_and_bad_duration =
     ''Executed 12 tests, with 3 failures\<newline>'' @
     ''Test Case '' @ [CHR 0x27] @ ''a'' @ [CHR 0x27] @ '' passed (1.2.3 seconds)''"

text \<open>The records one line of build output gives.\<close>

definition line_records :: "string \<Rightarrow> DiagnosticIssue list" where
  "line_records l = build_loop [l] []"




text \<open>
  The sink called on each line in turn: its state after the last line, or the first
  exception it raises. An absent sink keeps its state.
\<close>

fun feed :: "('s \<Rightarrow> string \<Rightarrow> exn + 's) option \<Rightarrow> 's \<Rightarrow> string list \<Rightarrow> exn + 's" where
  "feed callback s [] = Inr s"
| "feed callback s (l # ls) =
     (case callback of
        None \<Rightarrow> feed callback s ls
      | Some cb \<Rightarrow> (case cb s l of Inl e \<Rightarrow> Inl e | Inr s' \<Rightarrow> feed callback s' ls))"

text \<open>
  An operating system with three commands; every other command cannot be launched.
  A sink that keeps the lines it is given, and one that is interrupted.
\<close>

definition sample_popen :: "string list \<Rightarrow> string \<Rightarrow> exn + process" where
  "sample_popen cmd cwd =
     (if cmd = [''xcodebuild'', ''test''] then
        Inr \<lparr>stdout_reads = [Line ''Testing\<newline>'', Line ''** TEST FAILED **\<newline>''], returncode = 65\<rparr>
      else if cmd = [''true''] then
        Inr \<lparr>stdout_reads = [], returncode = 0\<rparr>
      else if cmd = [''garbled''] then
        Inr \<lparr>stdout_reads = [Line ''ok\<newline>'', Raise (Exception ''codec cannot decode byte'')],
             returncode = 0\<rparr>
      else Inl (Exception ''[Errno 2] No such file or directory''))"

definition recorder :: "(string list \<Rightarrow> string \<Rightarrow> exn + string list) option" where
  "recorder = Some (\<lambda>s l. Inr (s @ [l]))"

definition interrupted :: "(string list \<Rightarrow> string \<Rightarrow> exn + string list) option" where
  "interrupted = Some (\<lambda>s l. Inl (BaseException ''KeyboardInterrupt''))"

text \<open>
  The document in one piece: the head with the counts, the outcomes shown, the
  diagnostics shown, the foot. \<open>rate_value\<close> is the value of the rate expression.
\<close>

definition rate_value :: "'f runtime \<Rightarrow> int \<Rightarrow> int \<Rightarrow> 'f num" where
  "rate_value rt passed total' =
     (if total' > 0 then PyFloat (mul_int rt (truediv rt passed total') 100) else PyInt 0)"

definition shown_tests :: "'f runtime \<Rightarrow> 'f TestResult list \<Rightarrow> string" where
  "shown_tests rt tests =
     concat (map (test_item rt) (take 50 tests)) @
     (if 50 < length tests then more_tests (int (length tests)) else [])"

definition shown_issues :: "'f runtime \<Rightarrow> DiagnosticIssue list \<Rightarrow> string" where
  "shown_issues rt issues =
     (if issues = [] then []
      else issues_open rt @ concat (map (issue_item rt) (take 100 issues)) @
           (if 100 < length issues then more_issues (int (length issues)) else []) @
           issues_close)"

text \<open>
  An interpreter whose floats are pairs of a numerator and a denominator, a project,
  two diagnostics and an outcome.
\<close>

definition sample_runtime :: "(int \<times> int) runtime" where
  "sample_runtime =
     \<lparr>truediv = (\<lambda>a b. (a, b)),
      mul_int = (\<lambda>q n. (fst q * n, snd q)),
      format_f = (\<lambda>d q. str_int (fst q) @ ''/'' @ str_int (snd q)),
      str_float = (\<lambda>q. str_int (fst q) @ ''/'' @ str_int (snd q)),
      upper = (\<lambda>s. s),
      now_long = ''November 03, 2026 at 06:00 PM'',
      now_year = ''2026'',
      style_sheet = [],
      glyph = (\<lambda>cp. ''?'')\<rparr>"

definition sample_config :: ProjectConfig where
  "sample_config =
     \<lparr>path = ''/p'', config_name = ''App'', project_file = ''App.xcodeproj'',
      scheme = ''App'', is_workspace = False, bundle_id = None\<rparr>"

definition warning_issue :: DiagnosticIssue where
  "warning_issue =
     \<lparr>category = ''Build Warning'', severity = ''warning'', message = ''w'',
      issue_file = None, issue_line = None\<rparr>"

definition critical_issue :: DiagnosticIssue where
  "critical_issue =
     \<lparr>category = ''Build Error'', severity = ''critical'', message = ''e'',
      issue_file = None, issue_line = None\<rparr>"

definition passed_test :: "(int \<times> int) TestResult" where
  "passed_test = \<lparr>name = ''S.a'', status = ''passed'', duration = (1, 10)\<rparr>"

section \<open>Properties of the parser\<close>

lemmas parser_eval =
  parse_results_def test_case_pattern_def summary_pattern_def lit_def lazy_star_def
  greedy_plus_def opt_chr_def any_char_def dur_char_def is_digit_def py_float_def
  float_literal_def normalize_name_def py_int_def int_of_digits_def digit_val_def
  count_status_def

lemma parse_two_cases:
  "parse_results lim fl two_cases =
     Inr ([\<lparr>name = ''B.c'', status = ''passed'', duration = fl ''0.12''\<rparr>,
           \<lparr>name = ''x'', status = ''failed'', duration = fl ''1.''\<rparr>], 2, 1, 1)"
  by (simp add: two_cases_def parser_eval)

lemma finditer_tests_status:
  "(g1, g2, g3) \<in> set (finditer_tests s) \<Longrightarrow> g2 = ''passed'' \<or> g2 = ''failed''"
proof (induction s rule: finditer_tests.induct)
  case 1
  then show ?case by simp
next
  case (2 c cs)
  show ?case
  proof (cases "test_case_pattern (c # cs)")
    case None
    with 2 show ?thesis by simp
  next
    case (Some a)
    obtain h1 h2 h3 rest where a: "a = ((h1, h2, h3), rest)" by (cases a) auto
    from Some a have "h2 = ''passed'' \<or> h2 = ''failed''"
      using test_case_pattern_SomeD(3) by blast
    with 2 Some a show ?thesis by auto
  qed
qed

lemma collect_tests_status:
  "collect_tests fl ms acc = Inr tests \<Longrightarrow>
   \<forall>t \<in> set acc. status t = ''passed'' \<or> status t = ''failed'' \<Longrightarrow>
   \<forall>(g1, g2, g3) \<in> set ms. g2 = ''passed'' \<or> g2 = ''failed'' \<Longrightarrow>
   \<forall>t \<in> set tests. status t = ''passed'' \<or> status t = ''failed''"
proof (induction fl ms acc rule: collect_tests.induct)
  case (1 fl tests)
  then show ?case by simp
next
  case (2 fl g1 g2 g3 ms acc)
  from "2.prems"(1) obtain d where d: "py_float fl g3 = Inr d"
    and c: "collect_tests fl ms (acc @ [\<lparr>name = normalize_name g1, status = g2, duration = d\<rparr>]) = Inr tests"
    by (auto split: sum.splits)
  show ?case
    by (rule "2.IH"[OF d c]) (use "2.prems" in auto)
qed

lemma count_status_split:
  "\<forall>t \<in> set tests. status t = ''passed'' \<or> status t = ''failed'' \<Longrightarrow>
   count_status ''passed'' tests + count_status ''failed'' tests = int (length tests)"
  unfolding count_status_def by (induction tests) auto

lemma parse_results_status:
  assumes "parse_results lim fl output = Inr (tests, total', passed, failed')"
  shows "\<forall>t \<in> set tests. status t = ''passed'' \<or> status t = ''failed''"
proof -
  from assms have c: "collect_tests fl (finditer_tests output) [] = Inr tests"
    unfolding parse_results_def by (auto split: sum.splits option.splits if_splits)
  show ?thesis
    by (rule collect_tests_status[OF c]) (auto dest: finditer_tests_status)
qed

text \<open>
  Claim C9. Whenever \<open>parse_results\<close> returns, its totals satisfy
  \<open>total = passed + failed\<close>: with a summary line \<open>passed\<close> is \<open>total - failed\<close>;
  without one every record's status is \<open>passed\<close> or \<open>failed\<close>, so the two counts add
  up to the number of records; with neither all three are zero.
\<close>

theorem parse_totals_invariant:
  assumes "parse_results lim fl output = Inr (tests, total', passed, failed')"
  shows "total' = passed + failed'"
proof -
  note st = count_status_split[OF parse_results_status[OF assms]]
  from assms show ?thesis
    unfolding parse_results_def using st
    by (auto split: sum.splits option.splits if_splits)
qed

theorem parse_totals_invariant_witness:
  "\<exists>tests total' passed failed'.
     parse_results 4300 (\<lambda>s. s) two_cases = Inr (tests, total', passed, failed') \<and>
     tests \<noteq> [] \<and> total' = passed + failed'"
proof -
  note h = parse_two_cases[of 4300 "\<lambda>s. s"]
  from parse_totals_invariant[OF h] h show ?thesis by simp
qed

text \<open>
  Claim C10. The summary values are taken as they stand: on
  \<open>Executed 1 test, with 2 failures\<close> the call returns \<open>total = 1\<close>, \<open>failed = 2\<close> and
  the negative \<open>passed = -1\<close>, whatever the interpreter's parameters.
\<close>

theorem parse_negative_passed:
  "parse_results lim fl ''Executed 1 test, with 2 failures'' = Inr ([], 1, - 1, 2)"
  by (auto simp: parser_eval)

subsection \<open>Name normalization\<close>

lemma split_on_nonempty: "split_on c s \<noteq> []"
  by (induction s) auto

lemma split_on_no_sep: "c \<notin> set s \<Longrightarrow> split_on c s = [s]"
  by (induction s) auto

lemma split_on_append: "split_on c (xs @ c # ys) = split_on c xs @ split_on c ys"
  by (induction xs) (auto simp: split_on_nonempty)

lemma normalize_name_no_dot: "CHR ''.'' \<notin> set n \<Longrightarrow> normalize_name n = n"
  by (simp add: normalize_name_def)

lemma normalize_name_two:
  assumes "CHR ''.'' \<notin> set a" "CHR ''.'' \<notin> set b"
  shows "normalize_name (a @ ''.'' @ b) = a @ ''.'' @ b"
  using assms by (simp add: normalize_name_def split_on_append split_on_no_sep)

lemma normalize_name_more:
  assumes "CHR ''.'' \<notin> set a" "CHR ''.'' \<notin> set b"
  shows "normalize_name (p @ ''.'' @ a @ ''.'' @ b) = a @ ''.'' @ b"
proof -
  have s: "split_on CHR ''.'' (p @ ''.'' @ a @ ''.'' @ b) = split_on CHR ''.'' p @ [a, b]"
    using assms by (simp add: split_on_append split_on_no_sep)
  show ?thesis
    unfolding normalize_name_def s Let_def
    by (simp add: nth_append)
qed

lemma collect_tests_names:
  "collect_tests fl ms acc = Inr tests \<Longrightarrow>
   map name tests = map name acc @ map (\<lambda>(g1, g2, g3). normalize_name g1) ms"
proof (induction fl ms acc rule: collect_tests.induct)
  case (1 fl tests)
  then show ?case by simp
next
  case (2 fl g1 g2 g3 ms acc)
  from "2.prems" obtain d where d: "py_float fl g3 = Inr d"
    and c: "collect_tests fl ms (acc @ [\<lparr>name = normalize_name g1, status = g2, duration = d\<rparr>]) = Inr tests"
    by (auto split: sum.splits)
  from "2.IH"[OF d c] show ?case by simp
qed

lemma parse_results_collect:
  "parse_results lim fl output = Inr (tests, total', passed, failed') \<Longrightarrow>
   collect_tests fl (finditer_tests output) [] = Inr tests"
  unfolding parse_results_def by (auto split: sum.splits option.splits if_splits)

text \<open>
  Claim C3. An identifier without a dot is kept as it is. An identifier with a dot
  keeps its last two dot-separated components \<open>a\<close> and \<open>b\<close>, joined by a dot,
  whatever precedes them: with exactly one dot that is the identifier itself.
  \<open>MyAppTests.LoginTests.testValidLogin\<close> becomes \<open>LoginTests.testValidLogin\<close> and
  \<open>testSomething\<close> stays. The names of the records \<open>parse_results\<close> returns are the
  normalized first groups of the matches, in order.
\<close>

theorem normalize_name_last_two:
  "(CHR ''.'' \<notin> set n \<longrightarrow> normalize_name n = n) \<and>
   (CHR ''.'' \<notin> set a \<and> CHR ''.'' \<notin> set b \<longrightarrow>
      normalize_name (a @ ''.'' @ b) = a @ ''.'' @ b \<and>
      normalize_name (p @ ''.'' @ a @ ''.'' @ b) = a @ ''.'' @ b) \<and>
   normalize_name ''MyAppTests.LoginTests.testValidLogin'' = ''LoginTests.testValidLogin'' \<and>
   normalize_name ''testSomething'' = ''testSomething'' \<and>
   (parse_results lim fl output = Inr (tests, total', passed, failed') \<longrightarrow>
      map name tests = map (\<lambda>(g1, g2, g3). normalize_name g1) (finditer_tests output))"
proof -
  have ex1: "normalize_name ''MyAppTests.LoginTests.testValidLogin'' = ''LoginTests.testValidLogin''"
    using normalize_name_more[of "''LoginTests''" "''testValidLogin''" "''MyAppTests''"] by simp
  have ex2: "normalize_name ''testSomething'' = ''testSomething''"
    by (rule normalize_name_no_dot) simp
  have link: "parse_results lim fl output = Inr (tests, total', passed, failed') \<longrightarrow>
      map name tests = map (\<lambda>(g1, g2, g3). normalize_name g1) (finditer_tests output)"
    using collect_tests_names[OF parse_results_collect] by fastforce
  show ?thesis
    using ex1 ex2 link normalize_name_no_dot normalize_name_two normalize_name_more
    by blast
qed

theorem normalize_name_last_two_witness:
  "normalize_name ''a.b.c.d'' = ''c.d'' \<and> normalize_name ''Suite.case'' = ''Suite.case'' \<and>
   normalize_name ''plain'' = ''plain'' \<and>
   (\<exists>tests total' passed failed'.
      parse_results 4300 (\<lambda>s. s) two_cases = Inr (tests, total', passed, failed') \<and>
      map name tests = [''B.c'', ''x''])"
proof -
  note h = parse_two_cases[of 4300 "\<lambda>s. s"]
  note t = normalize_name_last_two[of "''plain''" "''c''" "''d''" "''a.b''" 4300 "\<lambda>s. s" two_cases
      "[\<lparr>name = ''B.c'', status = ''passed'', duration = ''0.12''\<rparr>,
        \<lparr>name = ''x'', status = ''failed'', duration = ''1.''\<rparr>]" 2 1 1]
  note u = normalize_name_last_two[of "''plain''" "''Suite''" "''case''" "''''" 4300 "\<lambda>s. s" two_cases
      "[\<lparr>name = ''B.c'', status = ''passed'', duration = ''0.12''\<rparr>,
        \<lparr>name = ''x'', status = ''failed'', duration = ''1.''\<rparr>]" 2 1 1]
  from t u h show ?thesis by simp
qed

subsection \<open>The summary line\<close>

lemma lit_append: "lit p k (p @ r) = k r"
  by (simp add: lit_def match_lit_append)

lemma greedy_plus_first:
  assumes "d \<noteq> []" "\<forall>c \<in> set d. P c" "r = [] \<or> \<not> P (hd r)" "k d r = Some x"
  shows "greedy_plus P k (d @ r) = Some x"
proof -
  have t: "takeWhile P (d @ r) = d" using assms(2,3) by (cases r) (auto simp: takeWhile_append2 takeWhile_eq_Nil_iff)
  have dr: "dropWhile P (d @ r) = r" using assms(2,3) by (cases r) (auto simp: dropWhile_append2)
  obtain c racc where rd: "rev d = c # racc" using assms(1) by (cases "rev d") auto
  then have "rev (c # racc) = d" by (metis rev_rev_ident)
  then show ?thesis
    unfolding greedy_plus_def t dr rd using assms(4) by simp
qed

lemma opt_chr_other: "(s = [] \<or> hd s \<noteq> c) \<Longrightarrow> opt_chr c k s = k s"
  by (cases s) (auto simp: opt_chr_def lit_def)

lemma opt_chr_hit: "k r = Some x \<Longrightarrow> opt_chr c k (c # r) = Some x"
  by (simp add: opt_chr_def lit_def)

lemma opt_chr_total: "k [] = Some x \<Longrightarrow> (\<And>s. k s = Some x) \<Longrightarrow> opt_chr c k s = Some x"
  by (cases s) (auto simp: opt_chr_def lit_def)

lemma space_not_digit: "\<not> is_digit CHR '' ''"
  by (simp add: is_digit_def)

lemma summary_pattern_complete:
  assumes "number n" "number f"
  shows "summary_pattern (summary_text n f plural @ rest) = Some (n, f)"
proof -
  have n: "n \<noteq> []" "\<forall>c \<in> set n. is_digit c" and f: "f \<noteq> []" "\<forall>c \<in> set f. is_digit c"
    using assms by (auto simp: number_def list_all_iff)
  have last: "opt_chr CHR ''s'' (\<lambda>rest. Some (n, f)) rest = Some (n, f)"
    by (rule opt_chr_total) simp_all
  have g2: "greedy_plus is_digit (\<lambda>g2. lit '' failure'' (opt_chr CHR ''s'' (\<lambda>rest. Some (n, g2))))
              (f @ ('' failure'' @ rest)) = Some (n, f)"
  proof (rule greedy_plus_first[OF f])
    show "'' failure'' @ rest = [] \<or> \<not> is_digit (hd ('' failure'' @ rest))"
      by (simp add: space_not_digit)
    show "lit '' failure'' (opt_chr CHR ''s'' (\<lambda>rest. Some (n, f))) ('' failure'' @ rest) = Some (n, f)"
      unfolding lit_append by (rule last)
  qed
  have w: "lit '', with '' (greedy_plus is_digit (\<lambda>g2. lit '' failure'' (opt_chr CHR ''s'' (\<lambda>rest. Some (n, g2)))))
              ('', with '' @ f @ '' failure'' @ rest) = Some (n, f)"
    unfolding lit_append by (rule g2)
  have o: "opt_chr CHR ''s'' (lit '', with '' (greedy_plus is_digit (\<lambda>g2. lit '' failure'' (opt_chr CHR ''s'' (\<lambda>rest. Some (n, g2))))))
              ((if plural then ''s'' else []) @ '', with '' @ f @ '' failure'' @ rest) = Some (n, f)"
  proof (cases plural)
    case True
    have "opt_chr CHR ''s'' (lit '', with '' (greedy_plus is_digit (\<lambda>g2. lit '' failure'' (opt_chr CHR ''s'' (\<lambda>rest. Some (n, g2))))))
              (CHR ''s'' # ('', with '' @ f @ '' failure'' @ rest)) = Some (n, f)"
      by (rule opt_chr_hit) (rule w)
    with True show ?thesis by simp
  next
    case False
    then show ?thesis using w by (subst opt_chr_other) simp_all
  qed
  have g1: "greedy_plus is_digit (\<lambda>g1. lit '' test'' (opt_chr CHR ''s'' (lit '', with ''
              (greedy_plus is_digit (\<lambda>g2. lit '' failure'' (opt_chr CHR ''s'' (\<lambda>rest. Some (g1, g2))))))))
              (n @ ('' test'' @ (if plural then ''s'' else []) @ '', with '' @ f @ '' failure'' @ rest)) = Some (n, f)"
  proof (rule greedy_plus_first[OF n])
    show "'' test'' @ (if plural then ''s'' else []) @ '', with '' @ f @ '' failure'' @ rest = [] \<or>
      \<not> is_digit (hd ('' test'' @ (if plural then ''s'' else []) @ '', with '' @ f @ '' failure'' @ rest))"
      by (simp add: space_not_digit)
    show "lit '' test'' (opt_chr CHR ''s'' (lit '', with ''
              (greedy_plus is_digit (\<lambda>g2. lit '' failure'' (opt_chr CHR ''s'' (\<lambda>rest. Some (n, g2)))))))
            ('' test'' @ (if plural then ''s'' else []) @ '', with '' @ f @ '' failure'' @ rest) = Some (n, f)"
      unfolding lit_append by (rule o)
  qed
  have "summary_pattern (''Executed '' @ n @ ('' test'' @ (if plural then ''s'' else []) @ '', with '' @ f @ '' failure'' @ rest)) = Some (n, f)"
    unfolding summary_pattern_def lit_append by (rule g1)
  then show ?thesis
    by (simp add: summary_text_def)
qed

lemma summary_pattern_sound:
  assumes "summary_pattern s = Some (n, f)"
  shows "number n \<and> number f \<and> (\<exists>plural rest. s = summary_text n f plural @ rest)"
proof -
  from assms obtain r1 where r1: "s = ''Executed '' @ r1"
    and m1: "greedy_plus is_digit (\<lambda>g1. lit '' test'' (opt_chr CHR ''s'' (lit '', with ''
              (greedy_plus is_digit (\<lambda>g2. lit '' failure'' (opt_chr CHR ''s'' (\<lambda>rest. Some (g1, g2)))))))) r1 = Some (n, f)"
    unfolding summary_pattern_def lit_Some by blast
  from greedy_plus_SomeD[OF m1] obtain d1 r2 where d1: "d1 \<noteq> []" "r1 = d1 @ r2" "\<forall>c \<in> set d1. is_digit c"
    and m2: "lit '' test'' (opt_chr CHR ''s'' (lit '', with ''
              (greedy_plus is_digit (\<lambda>g2. lit '' failure'' (opt_chr CHR ''s'' (\<lambda>rest. Some (d1, g2))))))) r2 = Some (n, f)"
    by blast
  from m2 obtain r3 where r3: "r2 = '' test'' @ r3"
    and m3: "opt_chr CHR ''s'' (lit '', with ''
              (greedy_plus is_digit (\<lambda>g2. lit '' failure'' (opt_chr CHR ''s'' (\<lambda>rest. Some (d1, g2)))))) r3 = Some (n, f)"
    unfolding lit_Some by blast
  from opt_chr_SomeD[OF m3] obtain plural r4 where r4: "r3 = (if plural then ''s'' else []) @ r4"
    and m4: "lit '', with ''
              (greedy_plus is_digit (\<lambda>g2. lit '' failure'' (opt_chr CHR ''s'' (\<lambda>rest. Some (d1, g2))))) r4 = Some (n, f)"
  proof (elim disjE exE conjE)
    fix r assume "r3 = CHR ''s'' # r" and "lit '', with ''
              (greedy_plus is_digit (\<lambda>g2. lit '' failure'' (opt_chr CHR ''s'' (\<lambda>rest. Some (d1, g2))))) r = Some (n, f)"
    then show ?thesis using that[of True r] by simp
  next
    assume "lit '', with ''
              (greedy_plus is_digit (\<lambda>g2. lit '' failure'' (opt_chr CHR ''s'' (\<lambda>rest. Some (d1, g2))))) r3 = Some (n, f)"
    then show ?thesis using that[of False r3] by simp
  qed
  from m4 obtain r5 where r5: "r4 = '', with '' @ r5"
    and m5: "greedy_plus is_digit (\<lambda>g2. lit '' failure'' (opt_chr CHR ''s'' (\<lambda>rest. Some (d1, g2)))) r5 = Some (n, f)"
    unfolding lit_Some by blast
  from greedy_plus_SomeD[OF m5] obtain d2 r6 where d2: "d2 \<noteq> []" "r5 = d2 @ r6" "\<forall>c \<in> set d2. is_digit c"
    and m6: "lit '' failure'' (opt_chr CHR ''s'' (\<lambda>rest. Some (d1, d2))) r6 = Some (n, f)"
    by blast
  from m6 obtain r7 where r7: "r6 = '' failure'' @ r7"
    and m7: "opt_chr CHR ''s'' (\<lambda>rest. Some (d1, d2)) r7 = Some (n, f)"
    unfolding lit_Some by blast
  from opt_chr_SomeD[OF m7] have e: "d1 = n" "d2 = f" by auto
  have "s = summary_text n f plural @ r7"
    using r1 d1(2) r3 r4 r5 d2(2) r7 e by (simp add: summary_text_def)
  moreover have "number n" "number f" using d1 d2 e by (auto simp: number_def list_all_iff)
  ultimately show ?thesis by blast
qed

lemma summary_at_iff:
  "summary_at output i n f \<longleftrightarrow> i \<le> length output \<and> summary_pattern (drop i output) = Some (n, f)"
  unfolding summary_at_def
  using summary_pattern_sound[of "drop i output" n f] summary_pattern_complete[of n f]
  by (metis (no_types, lifting))

lemma re_search_Some:
  "re_search m s = Some x \<Longrightarrow>
     \<exists>i \<le> length s. m (drop i s) = Some x \<and> (\<forall>j < i. m (drop j s) = None)"
proof (induction s)
  case Nil
  then show ?case by simp
next
  case (Cons c cs)
  show ?case
  proof (cases "m (c # cs)")
    case (Some y)
    with Cons.prems have "m (drop 0 (c # cs)) = Some x" by simp
    then show ?thesis by (intro exI[of _ 0]) simp
  next
    case None
    with Cons.prems have "re_search m cs = Some x" by simp
    from Cons.IH[OF this] obtain i where i: "i \<le> length cs" "m (drop i cs) = Some x"
      "\<forall>j < i. m (drop j cs) = None" by blast
    have "\<forall>j < Suc i. m (drop j (c # cs)) = None"
    proof (intro allI impI)
      fix j assume "j < Suc i"
      then show "m (drop j (c # cs)) = None" using None i(3) by (cases j) auto
    qed
    with i show ?thesis by (intro exI[of _ "Suc i"]) simp
  qed
qed

lemma re_search_None:
  "re_search m s = None \<Longrightarrow> i \<le> length s \<Longrightarrow> m (drop i s) = None"
proof (induction s arbitrary: i)
  case Nil
  then show ?case by simp
next
  case (Cons c cs)
  then show ?case by (cases i) (auto split: option.splits)
qed

lemma no_summary_iff:
  "(\<forall>i n f. \<not> summary_at output i n f) \<longleftrightarrow> re_search summary_pattern output = None"
proof
  assume a: "\<forall>i n f. \<not> summary_at output i n f"
  show "re_search summary_pattern output = None"
  proof (cases "re_search summary_pattern output")
    case None
    then show ?thesis .
  next
    case (Some x)
    obtain n f where x: "x = (n, f)" by (cases x)
    from re_search_Some[OF Some] x obtain i where
      "i \<le> length output" "summary_pattern (drop i output) = Some (n, f)" by blast
    then have "summary_at output i n f" by (simp add: summary_at_iff)
    with a show ?thesis by blast
  qed
next
  assume "re_search summary_pattern output = None"
  then show "\<forall>i n f. \<not> summary_at output i n f"
    by (auto simp: summary_at_iff dest: re_search_None)
qed

lemma first_summary_search:
  assumes "summary_at output i n f" "\<forall>j < i. \<forall>n' f'. \<not> summary_at output j n' f'"
  shows "re_search summary_pattern output = Some (n, f)"
proof (cases "re_search summary_pattern output")
  case None
  with assms(1) show ?thesis using no_summary_iff by blast
next
  case (Some x)
  obtain n' f' where x: "x = (n', f')" by (cases x)
  from re_search_Some[OF Some] x obtain k where k: "k \<le> length output"
    "summary_pattern (drop k output) = Some (n', f')"
    "\<forall>j < k. summary_pattern (drop j output) = None" by blast
  from assms(1) have i: "i \<le> length output" "summary_pattern (drop i output) = Some (n, f)"
    by (simp_all add: summary_at_iff)
  have "\<not> k < i" using assms(2) k(1,2) by (auto simp: summary_at_iff)
  moreover have "\<not> i < k" using k(3) i(2) by auto
  ultimately have "k = i" by simp
  with k(2) i(2) Some x show ?thesis by simp
qed

lemma collect_tests_ok:
  "\<forall>g \<in> set ms. float_literal (snd (snd g)) \<Longrightarrow>
   collect_tests fl ms acc = Inr (acc @ records_of fl ms)"
proof (induction fl ms acc rule: collect_tests.induct)
  case (1 fl tests)
  show ?case by (simp add: records_of_def)
next
  case (2 fl g1 g2 g3 ms acc)
  from "2.prems" have l: "float_literal g3" and r: "\<forall>g \<in> set ms. float_literal (snd (snd g))"
    by simp_all
  from l have d: "py_float fl g3 = Inr (fl g3)" by (simp add: py_float_def)
  show ?case
    using "2.IH"[OF d r] d by (simp add: records_of_def)
qed

lemma collect_tests_bad:
  "\<exists>g \<in> set ms. \<not> float_literal (snd (snd g)) \<Longrightarrow> collect_tests fl ms acc = Inl ValueError"
proof (induction fl ms acc rule: collect_tests.induct)
  case (1 fl tests)
  then show ?case by simp
next
  case (2 fl g1 g2 g3 ms acc)
  show ?case
  proof (cases "float_literal g3")
    case False
    then show ?thesis by (simp add: py_float_def)
  next
    case True
    then have d: "py_float fl g3 = Inr (fl g3)" by (simp add: py_float_def)
    from True "2.prems" have "\<exists>g \<in> set ms. \<not> float_literal (snd (snd g))" by simp
    from "2.IH"[OF d this] d show ?thesis by simp
  qed
qed

lemma py_int_fits: "py_int lim ds = (if fits lim ds then Inr (int_of_digits ds) else Inl ValueError)"
  by (auto simp: py_int_def fits_def)

lemma count_status_records:
  "count_status st (records_of fl ms) = int (length (filter (\<lambda>g. fst (snd g) = st) ms))"
  by (simp add: count_status_def records_of_def filter_map comp_def)

lemma parse_results_bad_duration:
  assumes "\<exists>g \<in> set (finditer_tests output). \<not> float_literal (snd (snd g))"
  shows "parse_results lim fl output = Inl ValueError"
  using collect_tests_bad[OF assms, of fl "[]"] by (simp add: parse_results_def)

text \<open>
  Claim C1, as amended. On every text whose matched durations are all float
  literals: if the text has a summary line, the first one gives \<open>total = N\<close>,
  \<open>failed = F\<close> and \<open>passed = N - F\<close> beside the records of the matches, whatever
  their number, \<open>N\<close> and \<open>F\<close> being within the limit of \<open>int\<close>; if it has none,
  \<open>total\<close> is the number of records and \<open>passed\<close> and \<open>failed\<close> count the records of
  that status; with no match either, the call returns no record and three zeros.
\<close>

theorem parse_totals_tie_break:
  "(\<forall>g \<in> set (finditer_tests output). float_literal (snd (snd g))) \<longrightarrow>
     (summary_at output i n f \<and> (\<forall>j < i. \<forall>n' f'. \<not> summary_at output j n' f') \<and>
      fits lim n \<and> fits lim f \<longrightarrow>
        parse_results lim fl output =
          Inr (records_of fl (finditer_tests output),
               int_of_digits n, int_of_digits n - int_of_digits f, int_of_digits f)) \<and>
     ((\<forall>i n f. \<not> summary_at output i n f) \<longrightarrow>
        parse_results lim fl output =
          Inr (records_of fl (finditer_tests output),
               int (length (finditer_tests output)),
               count_status ''passed'' (records_of fl (finditer_tests output)),
               count_status ''failed'' (records_of fl (finditer_tests output)))) \<and>
     ((\<forall>i n f. \<not> summary_at output i n f) \<and> finditer_tests output = [] \<longrightarrow>
        parse_results lim fl output = Inr ([], 0, 0, 0))"
proof (intro conjI impI)
  assume ok: "\<forall>g \<in> set (finditer_tests output). float_literal (snd (snd g))"
  assume h: "summary_at output i n f \<and> (\<forall>j < i. \<forall>n' f'. \<not> summary_at output j n' f') \<and>
      fits lim n \<and> fits lim f"
  then have s: "re_search summary_pattern output = Some (n, f)"
    using first_summary_search by blast
  have c: "collect_tests fl (finditer_tests output) [] = Inr (records_of fl (finditer_tests output))"
    using collect_tests_ok[OF ok, of fl "[]"] by simp
  from h show "parse_results lim fl output =
          Inr (records_of fl (finditer_tests output),
               int_of_digits n, int_of_digits n - int_of_digits f, int_of_digits f)"
    unfolding parse_results_def c s py_int_fits by simp
next
  assume ok: "\<forall>g \<in> set (finditer_tests output). float_literal (snd (snd g))"
  assume "\<forall>i n f. \<not> summary_at output i n f"
  then have s: "re_search summary_pattern output = None" by (simp add: no_summary_iff)
  have c: "collect_tests fl (finditer_tests output) [] = Inr (records_of fl (finditer_tests output))"
    using collect_tests_ok[OF ok, of fl "[]"] by simp
  have l: "length (records_of fl (finditer_tests output)) = length (finditer_tests output)"
    by (simp add: records_of_def)
  have e: "records_of fl (finditer_tests output) = [] \<Longrightarrow>
      count_status ''passed'' (records_of fl (finditer_tests output)) = 0 \<and>
      count_status ''failed'' (records_of fl (finditer_tests output)) = 0 \<and>
      length (finditer_tests output) = 0"
    using l by (simp add: count_status_def)
  show "parse_results lim fl output =
          Inr (records_of fl (finditer_tests output),
               int (length (finditer_tests output)),
               count_status ''passed'' (records_of fl (finditer_tests output)),
               count_status ''failed'' (records_of fl (finditer_tests output)))"
    unfolding parse_results_def c s using l e by (auto simp del: length_0_conv)
next
  assume a: "(\<forall>i n f. \<not> summary_at output i n f) \<and> finditer_tests output = []"
  then have s: "re_search summary_pattern output = None" by (simp add: no_summary_iff)
  from a show "parse_results lim fl output = Inr ([], 0, 0, 0)"
    by (simp add: parse_results_def s)
qed

lemma matches_summary_and_five:
  "finditer_tests summary_and_five =
     [(''S.a'', ''passed'', ''0.1''), (''S.b'', ''passed'', ''0.2''), (''S.c'', ''failed'', ''0.3''),
      (''S.d'', ''passed'', ''0.4''), (''S.e'', ''passed'', ''0.5'')]"
  by (simp add: summary_and_five_def parser_eval)

lemma matches_two_cases:
  "finditer_tests two_cases = [(''A.B.c'', ''passed'', ''0.12''), (''x'', ''failed'', ''1.'')]"
  by (simp add: two_cases_def parser_eval)

lemma matches_bad_duration:
  "finditer_tests summary_and_bad_duration = [(''a'', ''passed'', ''1.2.3'')]"
  by (simp add: summary_and_bad_duration_def parser_eval)

lemma summary_at_samples:
  "summary_at summary_and_five 0 ''12'' ''3''" "summary_at summary_and_bad_duration 0 ''12'' ''3''"
  unfolding summary_at_def
  by (intro conjI exI[of _ True] exI[of _ "drop 33 summary_and_five"];
      simp add: number_def is_digit_def summary_text_def summary_and_five_def)
     (intro conjI exI[of _ True] exI[of _ "drop 33 summary_and_bad_duration"];
      simp add: number_def is_digit_def summary_text_def summary_and_bad_duration_def)

theorem parse_totals_tie_break_witness:
  "length (finditer_tests summary_and_five) = 5 \<and>
   parse_results 4300 (\<lambda>s. s) summary_and_five =
     Inr (records_of (\<lambda>s. s) (finditer_tests summary_and_five), 12, 9, 3) \<and>
   parse_results 4300 (\<lambda>s. s) two_cases =
     Inr (records_of (\<lambda>s. s) (finditer_tests two_cases), 2, 1, 1) \<and>
   parse_results 4300 (\<lambda>s. s) ''binary garbage'' = Inr ([], 0, 0, 0)"
proof -
  have first: "\<forall>j < (0::nat). \<forall>n' f'. \<not> summary_at summary_and_five j n' f'" by simp
  have ok5: "\<forall>g \<in> set (finditer_tests summary_and_five). float_literal (snd (snd g))"
    unfolding matches_summary_and_five by (simp add: float_literal_def is_digit_def)
  have ok2: "\<forall>g \<in> set (finditer_tests two_cases). float_literal (snd (snd g))"
    unfolding matches_two_cases by (simp add: float_literal_def is_digit_def)
  have none2: "\<forall>i n f. \<not> summary_at two_cases i n f"
    unfolding no_summary_iff by (simp add: two_cases_def parser_eval)
  have m0: "finditer_tests ''binary garbage'' = []" by (simp add: parser_eval)
  have ok0: "\<forall>g \<in> set (finditer_tests ''binary garbage''). float_literal (snd (snd g))"
    unfolding m0 by simp
  have none0: "\<forall>i n f. \<not> summary_at ''binary garbage'' i n f"
    unfolding no_summary_iff by (simp add: parser_eval)
  have fit: "fits 4300 ''12''" "fits 4300 ''3''" by (simp_all add: fits_def)
  have dig: "int_of_digits ''12'' = 12" "int_of_digits ''3'' = 3"
    by (simp_all add: int_of_digits_def digit_val_def)
  have b: "parse_results 4300 (\<lambda>s. s) summary_and_five =
     Inr (records_of (\<lambda>s. s) (finditer_tests summary_and_five), 12, 9, 3)"
    using parse_totals_tie_break[of summary_and_five 0 "''12''" "''3''" 4300 "\<lambda>s. s",
        THEN mp, OF ok5, THEN conjunct1] summary_at_samples(1) first fit
    by (simp add: dig)
  have c2: "count_status ''passed'' (records_of (\<lambda>s. s) (finditer_tests two_cases)) = 1"
    "count_status ''failed'' (records_of (\<lambda>s. s) (finditer_tests two_cases)) = 0 + 1"
    unfolding count_status_records matches_two_cases by simp_all
  have c: "parse_results 4300 (\<lambda>s. s) two_cases =
     Inr (records_of (\<lambda>s. s) (finditer_tests two_cases), 2, 1, 1)"
    using parse_totals_tie_break[of two_cases _ _ _ 4300 "\<lambda>s. s",
        THEN mp, OF ok2, THEN conjunct2, THEN conjunct1, THEN mp, OF none2]
    unfolding c2 by (simp add: matches_two_cases)
  have d: "parse_results 4300 (\<lambda>s. s) ''binary garbage'' = Inr ([], 0, 0, 0)"
    using parse_totals_tie_break[of "''binary garbage''" _ _ _ 4300 "\<lambda>s. s",
        THEN mp, OF ok0, THEN conjunct2, THEN conjunct2]
      none0 m0 by blast
  have l: "length (finditer_tests summary_and_five) = 5"
    unfolding matches_summary_and_five by simp
  from l b c d show ?thesis by (intro conjI)
qed

text \<open>
  The claim as it was worded fails where a summary line stands beside a malformed
  duration: the text has the summary line of 12 tests and 3 failures, and the call
  returns no totals.
\<close>

theorem parse_totals_tie_break_counterexample:
  "summary_at summary_and_bad_duration 0 ''12'' ''3'' \<and>
   parse_results 4300 (\<lambda>s. s) summary_and_bad_duration = Inl ValueError"
proof
  show "summary_at summary_and_bad_duration 0 ''12'' ''3''"
    by (rule summary_at_samples(2))
  show "parse_results 4300 (\<lambda>s. s) summary_and_bad_duration = Inl ValueError"
    by (simp add: summary_and_bad_duration_def parser_eval)
qed

subsection \<open>Malformed durations\<close>

lemma parse_results_empty: "parse_results lim fl [] = Inr ([], 0, 0, 0)"
  by (simp add: parser_eval)

text \<open>
  A text in which neither pattern matches gives no record and three zero counts.
\<close>

theorem parse_results_no_match:
  assumes "finditer_tests output = []" "re_search summary_pattern output = None"
  shows "parse_results lim fl output = Inr ([], 0, 0, 0)"
  using assms by (simp add: parse_results_def)

theorem parse_results_no_match_witness:
  "finditer_tests ''binary garbage'' = [] \<and>
   re_search summary_pattern ''binary garbage'' = None \<and>
   parse_results 4300 (\<lambda>s. s) ''binary garbage'' = Inr ([], 0, 0, 0)"
proof -
  have a: "finditer_tests ''binary garbage'' = []"
    by (simp add: parser_eval)
  have b: "re_search summary_pattern ''binary garbage'' = None"
    by (simp add: parser_eval)
  from parse_results_no_match[OF a b, of 4300 "\<lambda>s. s"] a b show ?thesis by simp
qed

text \<open>
  Claim C2. The third group \<open>[\d.]+\<close> admits texts that \<open>float\<close> refuses. On such a
  match nothing guards the conversion: the call ends with \<open>ValueError\<close> instead of
  leaving the record out.
\<close>

theorem parse_raises_on_malformed_duration:
  "parse_results lim fl
     (''Test Case '' @ [CHR 0x27] @ ''a'' @ [CHR 0x27] @ '' passed (1.2.3 seconds)'') =
   Inl ValueError"
  by (simp add: parser_eval)

section \<open>Properties of the build-output scan\<close>

lemma contains_iff: "contains sub s \<longleftrightarrow> (\<exists>pre post. s = pre @ sub @ post)"
proof (induction s)
  case Nil
  then show ?case by auto
next
  case (Cons c cs)
  show ?case
  proof
    assume "contains sub (c # cs)"
    then consider r where "match_lit sub (c # cs) = Some r" | "contains sub cs" by auto
    then show "\<exists>pre post. c # cs = pre @ sub @ post"
    proof cases
      case 1
      then have "c # cs = [] @ sub @ r" by (simp add: match_lit_Some)
      then show ?thesis by blast
    next
      case 2
      with Cons.IH obtain pre post where "cs = pre @ sub @ post" by blast
      then have "c # cs = (c # pre) @ sub @ post" by simp
      then show ?thesis by blast
    qed
  next
    assume "\<exists>pre post. c # cs = pre @ sub @ post"
    then obtain pre post where e: "c # cs = pre @ sub @ post" by blast
    show "contains sub (c # cs)"
    proof (cases pre)
      case Nil
      with e have "match_lit sub (c # cs) = Some post" by (simp add: match_lit_Some)
      then show ?thesis by simp
    next
      case (Cons a pre')
      with e have "cs = pre' @ sub @ post" by simp
      with Cons.IH show ?thesis by auto
    qed
  qed
qed

lemma line_records_cases:
  "line_records l =
     (if contains ''error:'' (lower l) then
        [\<lparr>category = ''Build Error'', severity = ''critical'', message = strip l,
          issue_file = None, issue_line = None\<rparr>]
      else if contains ''warning:'' (lower l) then
        [\<lparr>category = ''Build Warning'', severity = ''warning'', message = strip l,
          issue_file = None, issue_line = None\<rparr>]
      else [])"
  unfolding line_records_def by (simp only: build_loop.simps append_Nil)

lemma build_loop_Cons: "build_loop (l # ls) issues = build_loop ls (issues @ line_records l)"
proof (cases "contains ''error:'' (lower l)")
  case True
  then show ?thesis
    by (simp only: line_records_cases build_loop.simps(2) if_True)
next
  case e: False
  show ?thesis
  proof (cases "contains ''warning:'' (lower l)")
    case True
    with e show ?thesis
      by (simp only: line_records_cases build_loop.simps(2) if_True if_False)
  next
    case False
    with e show ?thesis
      by (simp only: line_records_cases build_loop.simps(2) if_False append_Nil2)
  qed
qed

lemma build_loop_eq: "build_loop ls issues = issues @ concat (map line_records ls)"
proof (induction ls arbitrary: issues)
  case Nil
  show ?case by simp
next
  case (Cons l ls)
  show ?case
    unfolding build_loop_Cons Cons.IH by simp
qed

lemma analyze_build_output_append:
  "analyze_build_output (a @ CHR 0x0A # b) = analyze_build_output a @ analyze_build_output b"
  by (simp add: analyze_build_output_def split_on_append build_loop_eq)

lemma analyze_build_output_line:
  "CHR 0x0A \<notin> set l \<Longrightarrow> analyze_build_output l = line_records l"
  by (simp add: analyze_build_output_def split_on_no_sep line_records_def)

lemma line_records_length: "length (line_records l) \<le> 1"
  unfolding line_records_cases by (simp only: list.size if_distrib[of length] split: if_split) simp

text \<open>
  Claim C4. A single line of build output gives at most one record: the critical
  \<open>Build Error\<close> record with the stripped line when its lower-cased text contains
  \<open>error:\<close>, also when it contains \<open>warning:\<close> as well; the \<open>Build Warning\<close> record when
  it contains \<open>warning:\<close> and not \<open>error:\<close>; nothing otherwise. The scan of a text is
  the scans of its lines, one after the other.
\<close>

theorem build_output_one_record_per_line:
  "(CHR 0x0A \<notin> set l \<longrightarrow>
      length (analyze_build_output l) \<le> 1 \<and>
      (contains ''error:'' (lower l) \<longrightarrow>
         analyze_build_output l =
           [\<lparr>category = ''Build Error'', severity = ''critical'', message = strip l,
             issue_file = None, issue_line = None\<rparr>]) \<and>
      (\<not> contains ''error:'' (lower l) \<and> contains ''warning:'' (lower l) \<longrightarrow>
         analyze_build_output l =
           [\<lparr>category = ''Build Warning'', severity = ''warning'', message = strip l,
             issue_file = None, issue_line = None\<rparr>]) \<and>
      (\<not> contains ''error:'' (lower l) \<and> \<not> contains ''warning:'' (lower l) \<longrightarrow>
         analyze_build_output l = [])) \<and>
   analyze_build_output (a @ CHR 0x0A # b) = analyze_build_output a @ analyze_build_output b"
proof (intro conjI impI)
  assume nl: "CHR 0x0A \<notin> set l"
  note one = analyze_build_output_line[OF nl]
  show "length (analyze_build_output l) \<le> 1"
    unfolding one by (rule line_records_length)
  show "analyze_build_output l =
      [\<lparr>category = ''Build Error'', severity = ''critical'', message = strip l,
        issue_file = None, issue_line = None\<rparr>]"
    if "contains ''error:'' (lower l)"
    unfolding one line_records_cases using that by (simp only: if_True)
  show "analyze_build_output l =
      [\<lparr>category = ''Build Warning'', severity = ''warning'', message = strip l,
        issue_file = None, issue_line = None\<rparr>]"
    if "\<not> contains ''error:'' (lower l) \<and> contains ''warning:'' (lower l)"
    unfolding one line_records_cases using that by (simp only: if_True if_False)
  show "analyze_build_output l = []"
    if "\<not> contains ''error:'' (lower l) \<and> \<not> contains ''warning:'' (lower l)"
    unfolding one line_records_cases using that by (simp only: if_False)
next
  show "analyze_build_output (a @ CHR 0x0A # b) = analyze_build_output a @ analyze_build_output b"
    by (rule analyze_build_output_append)
qed

lemma lower_both: "lower ''  x.swift:1: Error: boom warning: y '' = ''  x.swift:1: error: boom warning: y ''"
  by code_simp

lemma lower_warn: "lower ''ld: WARNING: dup'' = ''ld: warning: dup''"
  by code_simp

lemma strip_both: "strip ''  x.swift:1: Error: boom warning: y '' = ''x.swift:1: Error: boom warning: y''"
  by (simp add: strip_def is_space_def)

lemma strip_warn: "strip ''ld: WARNING: dup'' = ''ld: WARNING: dup''"
  by (simp add: strip_def is_space_def)

theorem build_output_one_record_per_line_witness:
  "contains ''error:'' (lower ''  x.swift:1: Error: boom warning: y '') \<and>
   contains ''warning:'' (lower ''  x.swift:1: Error: boom warning: y '') \<and>
   analyze_build_output ''  x.swift:1: Error: boom warning: y '' =
     [\<lparr>category = ''Build Error'', severity = ''critical'',
       message = ''x.swift:1: Error: boom warning: y'', issue_file = None, issue_line = None\<rparr>] \<and>
   analyze_build_output ''ld: WARNING: dup'' =
     [\<lparr>category = ''Build Warning'', severity = ''warning'',
       message = ''ld: WARNING: dup'', issue_file = None, issue_line = None\<rparr>] \<and>
   analyze_build_output (''  x.swift:1: Error: boom warning: y '' @ CHR 0x0A # ''ld: WARNING: dup'') =
     [\<lparr>category = ''Build Error'', severity = ''critical'',
       message = ''x.swift:1: Error: boom warning: y'', issue_file = None, issue_line = None\<rparr>,
      \<lparr>category = ''Build Warning'', severity = ''warning'',
       message = ''ld: WARNING: dup'', issue_file = None, issue_line = None\<rparr>]"
proof -
  have e1: "contains ''error:'' (lower ''  x.swift:1: Error: boom warning: y '')"
    unfolding lower_both by simp
  have w1: "contains ''warning:'' (lower ''  x.swift:1: Error: boom warning: y '')"
    unfolding lower_both by simp
  have e2: "\<not> contains ''error:'' (lower ''ld: WARNING: dup'')"
    unfolding lower_warn by simp
  have w2: "contains ''warning:'' (lower ''ld: WARNING: dup'')"
    unfolding lower_warn by simp
  have n1: "CHR 0x0A \<notin> set ''  x.swift:1: Error: boom warning: y ''" by simp
  have n2: "CHR 0x0A \<notin> set ''ld: WARNING: dup''" by simp
  note t1 = build_output_one_record_per_line[of "''  x.swift:1: Error: boom warning: y ''"
      "''  x.swift:1: Error: boom warning: y ''" "''ld: WARNING: dup''"]
  note t2 = build_output_one_record_per_line[of "''ld: WARNING: dup''" "[]" "[]"]
  have r1: "analyze_build_output ''  x.swift:1: Error: boom warning: y '' =
     [\<lparr>category = ''Build Error'', severity = ''critical'',
       message = ''x.swift:1: Error: boom warning: y'', issue_file = None, issue_line = None\<rparr>]"
    using t1 n1 e1 unfolding strip_both by blast
  have r2: "analyze_build_output ''ld: WARNING: dup'' =
     [\<lparr>category = ''Build Warning'', severity = ''warning'',
       message = ''ld: WARNING: dup'', issue_file = None, issue_line = None\<rparr>]"
    using t2 n2 e2 w2 unfolding strip_warn by blast
  have r3: "analyze_build_output (''  x.swift:1: Error: boom warning: y '' @ CHR 0x0A # ''ld: WARNING: dup'') =
      analyze_build_output ''  x.swift:1: Error: boom warning: y '' @ analyze_build_output ''ld: WARNING: dup''"
    using t1 by blast
  show ?thesis
    unfolding r3 r1 r2 using e1 w1 by (simp only: append_Cons append_Nil simp_thms)
qed

section \<open>Properties of the source scan\<close>










section \<open>Properties of the command runner\<close>

lemma read_lines_feed:
  "list_all (\<lambda>l. l \<noteq> []) ls \<Longrightarrow> feed callback s ls = Inr s' \<Longrightarrow>
   read_lines (map Line ls @ rest) callback s acc = read_lines rest callback s' (acc @ ls)"
proof (induction ls arbitrary: s acc)
  case Nil
  then show ?case by simp
next
  case (Cons l ls)
  from Cons.prems(1) have l: "l \<noteq> []" and ls: "list_all (\<lambda>l. l \<noteq> []) ls" by simp_all
  show ?case
  proof (cases callback)
    case None
    with Cons.prems(2) have "feed callback s ls = Inr s'" by simp
    from Cons.IH[OF ls this, of "acc @ [l]"] None l show ?thesis by simp
  next
    case (Some cb)
    with Cons.prems(2) obtain s1 where c: "cb s l = Inr s1" and f: "feed callback s1 ls = Inr s'"
      by (auto split: sum.splits)
    from Cons.IH[OF ls f, of "acc @ [l]"] Some l c show ?thesis by simp
  qed
qed

lemma feed_recorder: "feed (Some (\<lambda>s l. Inr (s @ [l]))) s ls = Inr (s @ ls)"
  by (induction ls arbitrary: s) simp_all

lemma feed_None: "feed None s ls = Inr s"
  by (induction ls) simp_all

text \<open>
  Claim C8, as amended. \<open>ls\<close> are the lines read before the stream ends or a step
  raises, all given to the sink in their order. When the stream ends, \<open>run\<close>
  returns the joined lines and an empty error, and \<open>succeeded\<close> is true exactly
  when the exit status is zero. When the launch, a read or the sink raises an
  exception of class \<open>Exception\<close>, \<open>run\<close> returns \<open>False\<close>, the empty output and
  \<open>str(e)\<close>, whatever the exit status. An exception outside that class leaves \<open>run\<close>.
  A sink that keeps its lines ends with the lines it was given, appended in order.
\<close>

theorem run_reports_exit_status_and_errors:
  "(popen cmd cwd = Inl (Exception m) \<longrightarrow>
      run popen cmd cwd callback s0 = (Inr (False, [], m), s0)) \<and>
   (popen cmd cwd = Inl (BaseException m) \<longrightarrow>
      run popen cmd cwd callback s0 = (Inl (BaseException m), s0)) \<and>
   (popen cmd cwd = Inr p \<and> list_all (\<lambda>l. l \<noteq> []) ls \<and> feed callback s0 ls = Inr s \<longrightarrow>
      (stdout_reads p = map Line ls \<or> stdout_reads p = map Line ls @ Line [] # rest \<longrightarrow>
         run popen cmd cwd callback s0 = (Inr (returncode p = 0, concat ls, []), s)) \<and>
      (stdout_reads p = map Line ls @ Raise (Exception m) # rest \<longrightarrow>
         run popen cmd cwd callback s0 = (Inr (False, [], m), s)) \<and>
      (stdout_reads p = map Line ls @ Raise (BaseException m) # rest \<longrightarrow>
         run popen cmd cwd callback s0 = (Inl (BaseException m), s)) \<and>
      (stdout_reads p = map Line ls @ Line l # rest \<and> l \<noteq> [] \<and>
       callback = Some cb \<and> cb s l = Inl (Exception m) \<longrightarrow>
         run popen cmd cwd callback s0 = (Inr (False, [], m), s)) \<and>
      (stdout_reads p = map Line ls @ Line l # rest \<and> l \<noteq> [] \<and>
       callback = Some cb \<and> cb s l = Inl (BaseException m) \<longrightarrow>
         run popen cmd cwd callback s0 = (Inl (BaseException m), s))) \<and>
   feed (Some (\<lambda>s l. Inr (s @ [l]))) s1 ls = Inr (s1 @ ls) \<and>
   feed None s0 ls = Inr s0"
proof (intro conjI impI)
  show "run popen cmd cwd callback s0 = (Inr (False, [], m), s0)"
    if "popen cmd cwd = Inl (Exception m)"
    using that by (simp add: run_def except_Exception_def)
  show "run popen cmd cwd callback s0 = (Inl (BaseException m), s0)"
    if "popen cmd cwd = Inl (BaseException m)"
    using that by (simp add: run_def except_Exception_def)
  show "feed (Some (\<lambda>s l. Inr (s @ [l]))) s1 ls = Inr (s1 @ ls)" by (rule feed_recorder)
  show "feed None s0 ls = Inr s0" by (rule feed_None)
next
  assume h: "popen cmd cwd = Inr p \<and> list_all (\<lambda>l. l \<noteq> []) ls \<and> feed callback s0 ls = Inr s"
  then have p: "popen cmd cwd = Inr p" by simp
  from h have step: "\<And>rest. read_lines (map Line ls @ rest) callback s0 [] = read_lines rest callback s ls"
    using read_lines_feed[of ls callback s0 s _ "[]"] by simp
  show "run popen cmd cwd callback s0 = (Inr (returncode p = 0, concat ls, []), s)"
    if "stdout_reads p = map Line ls \<or> stdout_reads p = map Line ls @ Line [] # rest"
    using that step[of "[]"] step[of "Line [] # rest"] p by (auto simp: run_def)
  show "run popen cmd cwd callback s0 = (Inr (False, [], m), s)"
    if "stdout_reads p = map Line ls @ Raise (Exception m) # rest"
    using that step[of "Raise (Exception m) # rest"] p by (simp add: run_def except_Exception_def)
  show "run popen cmd cwd callback s0 = (Inl (BaseException m), s)"
    if "stdout_reads p = map Line ls @ Raise (BaseException m) # rest"
    using that step[of "Raise (BaseException m) # rest"] p by (simp add: run_def except_Exception_def)
  show "run popen cmd cwd callback s0 = (Inr (False, [], m), s)"
    if "stdout_reads p = map Line ls @ Line l # rest \<and> l \<noteq> [] \<and>
        callback = Some cb \<and> cb s l = Inl (Exception m)"
    using that step[of "Line l # rest"] p by (simp add: run_def except_Exception_def)
  show "run popen cmd cwd callback s0 = (Inl (BaseException m), s)"
    if "stdout_reads p = map Line ls @ Line l # rest \<and> l \<noteq> [] \<and>
        callback = Some cb \<and> cb s l = Inl (BaseException m)"
    using that step[of "Line l # rest"] p by (simp add: run_def except_Exception_def)
qed

lemma sample_popen_values:
  "sample_popen [''xcodebuild'', ''test''] ''/p'' =
      Inr \<lparr>stdout_reads = [Line ''Testing\<newline>'', Line ''** TEST FAILED **\<newline>''], returncode = 65\<rparr>"
  "sample_popen [''true''] ''/p'' = Inr \<lparr>stdout_reads = [], returncode = 0\<rparr>"
  "sample_popen [''garbled''] ''/p'' =
      Inr \<lparr>stdout_reads = [Line ''ok\<newline>'', Raise (Exception ''codec cannot decode byte'')],
           returncode = 0\<rparr>"
  "sample_popen [''nope''] ''/p'' = Inl (Exception ''[Errno 2] No such file or directory'')"
  by (simp_all add: sample_popen_def)

theorem run_reports_exit_status_and_errors_witness:
  "run sample_popen [''xcodebuild'', ''test''] ''/p'' recorder [] =
     (Inr (False, ''Testing\<newline>** TEST FAILED **\<newline>'', []),
      [''Testing\<newline>'', ''** TEST FAILED **\<newline>'']) \<and>
   run sample_popen [''true''] ''/p'' recorder [] = (Inr (True, [], []), []) \<and>
   run sample_popen [''garbled''] ''/p'' recorder [] =
     (Inr (False, [], ''codec cannot decode byte''), [''ok\<newline>'']) \<and>
   run sample_popen [''nope''] ''/p'' recorder [] =
     (Inr (False, [], ''[Errno 2] No such file or directory''), []) \<and>
   run sample_popen [''xcodebuild'', ''test''] ''/p'' interrupted [] =
     (Inl (BaseException ''KeyboardInterrupt''), [])"
proof -
  have r1: "run sample_popen [''xcodebuild'', ''test''] ''/p'' recorder [] =
     (Inr (False, ''Testing\<newline>** TEST FAILED **\<newline>'', []),
      [''Testing\<newline>'', ''** TEST FAILED **\<newline>''])"
    using run_reports_exit_status_and_errors[where popen = sample_popen
        and cmd = "[''xcodebuild'', ''test'']" and cwd = "''/p''" and callback = recorder
        and ?s0.0 = "[]" and ls = "[''Testing\<newline>'', ''** TEST FAILED **\<newline>'']"
        and s = "[''Testing\<newline>'', ''** TEST FAILED **\<newline>'']"
        and p = "\<lparr>stdout_reads = [Line ''Testing\<newline>'', Line ''** TEST FAILED **\<newline>''], returncode = 65\<rparr>"]
      sample_popen_values(1)
    by (simp add: recorder_def)
  have r2: "run sample_popen [''true''] ''/p'' recorder [] = (Inr (True, [], []), [])"
    using run_reports_exit_status_and_errors[where popen = sample_popen
        and cmd = "[''true'']" and cwd = "''/p''" and callback = recorder
        and ?s0.0 = "[]" and ls = "[]" and s = "[]"
        and p = "\<lparr>stdout_reads = [], returncode = 0\<rparr>"]
      sample_popen_values(2)
    by (simp add: recorder_def)
  have r3: "run sample_popen [''garbled''] ''/p'' recorder [] =
     (Inr (False, [], ''codec cannot decode byte''), [''ok\<newline>''])"
    using run_reports_exit_status_and_errors[where popen = sample_popen
        and cmd = "[''garbled'']" and cwd = "''/p''" and callback = recorder
        and ?s0.0 = "[]" and ls = "[''ok\<newline>'']" and s = "[''ok\<newline>'']"
        and m = "''codec cannot decode byte''" and rest = "[]"
        and p = "\<lparr>stdout_reads = [Line ''ok\<newline>'', Raise (Exception ''codec cannot decode byte'')],
           returncode = 0\<rparr>"]
      sample_popen_values(3)
    by (simp add: recorder_def)
  have r4: "run sample_popen [''nope''] ''/p'' recorder [] =
     (Inr (False, [], ''[Errno 2] No such file or directory''), [])"
    using run_reports_exit_status_and_errors[where popen = sample_popen
        and cmd = "[''nope'']" and cwd = "''/p''" and callback = recorder
        and ?s0.0 = "[]" and m = "''[Errno 2] No such file or directory''"]
      sample_popen_values(4)
    by simp
  have r5: "run sample_popen [''xcodebuild'', ''test''] ''/p'' interrupted [] =
     (Inl (BaseException ''KeyboardInterrupt''), [])"
    using run_reports_exit_status_and_errors[where popen = sample_popen
        and cmd = "[''xcodebuild'', ''test'']" and cwd = "''/p''" and callback = interrupted
        and ?s0.0 = "[]" and ls = "[]" and s = "[]" and l = "''Testing\<newline>''"
        and rest = "[Line ''** TEST FAILED **\<newline>'']" and m = "''KeyboardInterrupt''"
        and cb = "\<lambda>s l. Inl (BaseException ''KeyboardInterrupt'')"
        and p = "\<lparr>stdout_reads = [Line ''Testing\<newline>'', Line ''** TEST FAILED **\<newline>''], returncode = 65\<rparr>"]
      sample_popen_values(1)
    by (simp add: interrupted_def)
  from r1 r2 r3 r4 r5 show ?thesis by (intro conjI)
qed

text \<open>
  The claim as it was worded fails in three ways: a process whose exit status is zero
  with \<open>succeeded\<close> false, since a read raised; an exception without text, which
  leaves the error empty; and an interrupt in the sink, which \<open>run\<close> does not catch.
\<close>

theorem run_reports_exit_status_and_errors_counterexample:
  "sample_popen [''garbled''] ''/p'' =
     Inr \<lparr>stdout_reads = [Line ''ok\<newline>'', Raise (Exception ''codec cannot decode byte'')],
          returncode = 0\<rparr> \<and>
   run sample_popen [''garbled''] ''/p'' recorder [] =
     (Inr (False, [], ''codec cannot decode byte''), [''ok\<newline>'']) \<and>
   run (\<lambda>cmd cwd. Inl (Exception [])) [''xcodebuild''] ''/p'' recorder [] =
     (Inr (False, [], []), []) \<and>
   run sample_popen [''xcodebuild'', ''test''] ''/p'' interrupted [] =
     (Inl (BaseException ''KeyboardInterrupt''), [])"
  by (simp add: run_def except_Exception_def sample_popen_def recorder_def interrupted_def)

section \<open>Properties of the report\<close>

lemma foldl_append_concat: "foldl (\<lambda>h x. h @ f x) a xs = a @ concat (map f xs)"
  by (induction xs arbitrary: a) simp_all

lemma success_rate_value: "success_rate rt passed total' = Inr (rate_value rt passed total')"
  by (simp add: success_rate_def py_truediv_def rate_value_def)

lemma generate_html_structure:
  "generate_html rt project_config tests issues build_success =
     Inr (html_head rt project_config build_success
            (count_status ''passed'' tests) (int (length tests)) (count_status ''failed'' tests)
            (format_1f rt (rate_value rt (count_status ''passed'' tests) (int (length tests))))
            (int (length issues))
            (str_num rt (rate_value rt (count_status ''passed'' tests) (int (length tests)))) @
          shown_tests rt tests @ tests_close @ shown_issues rt issues @ html_foot rt)"
  unfolding generate_html_def Let_def success_rate_value sum.case foldl_append_concat
    shown_tests_def shown_issues_def
  by (simp only: append_assoc append_Nil2 if_distrib[of "\<lambda>h. h @ _"] if_distrib[of Inr] split: if_split)
    simp

lemma str_int_0: "str_int 0 = ''0''"
  by code_simp

lemma format_1f_zero: "format_1f rt (PyInt 0) = ''0.0''"
  by (simp add: format_1f_def str_int_0)

lemma str_num_zero: "str_num rt (PyInt 0) = ''0''"
  by (simp add: str_num_def str_int_0)

lemma shown_tests_Nil: "shown_tests rt [] = []"
  by (simp add: shown_tests_def)

lemma ex_append_step:
  "\<exists>pre post. t = pre @ m @ post \<Longrightarrow> \<exists>pre post. a @ t = pre @ m @ post"
proof -
  assume "\<exists>pre post. t = pre @ m @ post"
  then obtain pre post where "t = pre @ m @ post" by blast
  then have "a @ t = (a @ pre) @ m @ post" by simp
  then show ?thesis by blast
qed

lemma rate_card_base:
  \<open>\<exists>pre post. ''                <div class="number">'' @ x @ ''%</div>\<newline>'' @ rest =
      pre @ (''<div class="number">'' @ x @ ''%</div>'') @ post\<close>
  by (rule exI[of _ "''                ''"], rule exI[of _ "CHR 0x0A # rest"]) simp

lemma html_head_rate_card:
  \<open>\<exists>pre post. html_head rt project_config build_success passed total' failed rate_1f n_issues rate_str =
      pre @ (''<div class="number">'' @ rate_1f @ ''%</div>'') @ post\<close>
  unfolding html_head_def
  by (rule rate_card_base | rule ex_append_step)+

lemma shown_issues_hidden:
  assumes "take 100 issues = take 100 issues'" "length issues = length issues'"
  shows "shown_issues rt issues = shown_issues rt issues'"
proof -
  from assms(2) have "(issues = []) = (issues' = [])" by (metis length_0_conv)
  then show ?thesis unfolding shown_issues_def assms by (simp only:)
qed

lemma generate_html_hidden:
  assumes "take 100 issues = take 100 issues'" "length issues = length issues'"
  shows "generate_html rt project_config tests issues build_success =
         generate_html rt project_config tests issues' build_success"
  unfolding generate_html_structure shown_issues_hidden[OF assms] assms(2) by (rule refl)

lemma severity_samples:
  "severity warning_issue = ''warning''" "severity critical_issue = ''critical''"
  by (simp_all add: warning_issue_def critical_issue_def)

lemma str_int_samples: "str_int 100 = ''100''" "str_int 1 = ''1''"
  by code_simp+

lemma sample_rate:
  "format_f sample_runtime 1 (mul_int sample_runtime (truediv sample_runtime 1 1) 100) = ''100/1''"
  "str_float sample_runtime (mul_int sample_runtime (truediv sample_runtime 1 1) 100) = ''100/1''"
  by (simp_all add: sample_runtime_def str_int_samples)

lemma passed_test_counts:
  "count_status ''passed'' [passed_test] = 1" "count_status ''failed'' [passed_test] = 0"
  "int (length [passed_test]) = 1"
  by (simp_all add: count_status_def passed_test_def)

lemma shown_issues_Nil: "shown_issues rt [] = []"
  by (simp add: shown_issues_def)

lemma empty_counts:
  "count_status ''passed'' ([] :: (int \<times> int) TestResult list) = 0"
  "count_status ''failed'' ([] :: (int \<times> int) TestResult list) = 0"
  "int (length ([] :: (int \<times> int) TestResult list)) = 0"
  "int (length ([] :: DiagnosticIssue list)) = 0"
  by (simp_all add: count_status_def)

text \<open>
  Claim C6. \<open>generate_html\<close> always returns a document: the division is only reached
  with \<open>total > 0\<close>. The rate is \<open>passed / total * 100\<close> when \<open>total > 0\<close> and the
  integer 0 otherwise. With no outcomes the head is rendered with \<open>0.0\<close> as the rate;
  with outcomes it is rendered with the rate formatted to one decimal place. The head
  shows that text followed by \<open>%\<close>.
\<close>

theorem report_success_rate:
  \<open>(\<exists>doc. generate_html rt project_config tests issues build_success = Inr doc) \<and>
   success_rate rt passed total' =
     Inr (if total' > 0 then PyFloat (mul_int rt (truediv rt passed total') 100) else PyInt 0) \<and>
   (tests = [] \<longrightarrow>
      generate_html rt project_config tests issues build_success =
        Inr (html_head rt project_config build_success 0 0 0 ''0.0'' (int (length issues)) ''0'' @
             tests_close @ shown_issues rt issues @ html_foot rt)) \<and>
   (tests \<noteq> [] \<longrightarrow>
      generate_html rt project_config tests issues build_success =
        Inr (html_head rt project_config build_success
               (count_status ''passed'' tests) (int (length tests)) (count_status ''failed'' tests)
               (format_f rt 1
                  (mul_int rt (truediv rt (count_status ''passed'' tests) (int (length tests))) 100))
               (int (length issues))
               (str_float rt
                  (mul_int rt (truediv rt (count_status ''passed'' tests) (int (length tests))) 100)) @
             shown_tests rt tests @ tests_close @ shown_issues rt issues @ html_foot rt)) \<and>
   (\<exists>pre post.
      html_head rt project_config build_success passed total' failed rate_1f n_issues rate_str =
        pre @ (''<div class="number">'' @ rate_1f @ ''%</div>'') @ post)\<close>
proof (intro conjI impI)
  show "\<exists>doc. generate_html rt project_config tests issues build_success = Inr doc"
    unfolding generate_html_structure by (rule exI) (rule refl)
  show "success_rate rt passed total' =
     Inr (if total' > 0 then PyFloat (mul_int rt (truediv rt passed total') 100) else PyInt 0)"
    unfolding success_rate_value rate_value_def by (rule refl)
next
  assume e: "tests = []"
  have r: "rate_value rt 0 0 = PyInt 0" by (simp add: rate_value_def)
  have c: "count_status ''passed'' ([] :: 'a TestResult list) = 0"
    "count_status ''failed'' ([] :: 'a TestResult list) = 0"
    by (simp_all add: count_status_def)
  show "generate_html rt project_config tests issues build_success =
        Inr (html_head rt project_config build_success 0 0 0 ''0.0'' (int (length issues)) ''0'' @
             tests_close @ shown_issues rt issues @ html_foot rt)"
    unfolding generate_html_structure e c list.size of_nat_0 r format_1f_zero str_num_zero shown_tests_Nil
    by (simp only: append_Nil)
next
  assume n: "tests \<noteq> []"
  then have "0 < int (length tests)" by simp
  then have r: "rate_value rt (count_status ''passed'' tests) (int (length tests)) =
      PyFloat (mul_int rt (truediv rt (count_status ''passed'' tests) (int (length tests))) 100)"
    by (simp add: rate_value_def)
  show "generate_html rt project_config tests issues build_success =
        Inr (html_head rt project_config build_success
               (count_status ''passed'' tests) (int (length tests)) (count_status ''failed'' tests)
               (format_f rt 1
                  (mul_int rt (truediv rt (count_status ''passed'' tests) (int (length tests))) 100))
               (int (length issues))
               (str_float rt
                  (mul_int rt (truediv rt (count_status ''passed'' tests) (int (length tests))) 100)) @
             shown_tests rt tests @ tests_close @ shown_issues rt issues @ html_foot rt)"
    unfolding generate_html_structure r format_1f_def str_num_def num.case by (rule refl)
next
  show \<open>\<exists>pre post.
      html_head rt project_config build_success passed total' failed rate_1f n_issues rate_str =
        pre @ (''<div class="number">'' @ rate_1f @ ''%</div>'') @ post\<close>
    by (rule html_head_rate_card)
qed

theorem report_success_rate_witness:
  "generate_html sample_runtime sample_config [] [] True =
     Inr (html_head sample_runtime sample_config True 0 0 0 ''0.0'' 0 ''0'' @
          tests_close @ html_foot sample_runtime) \<and>
   generate_html sample_runtime sample_config [passed_test] [] True =
     Inr (html_head sample_runtime sample_config True 1 1 0 ''100/1'' 0 ''100/1'' @
          shown_tests sample_runtime [passed_test] @ tests_close @ html_foot sample_runtime)"
proof -
  note t = report_success_rate[where rt = sample_runtime and project_config = sample_config
      and tests = "[]" and issues = "[]" and build_success = True,
      THEN conjunct2, THEN conjunct2, THEN conjunct1, THEN mp, OF refl]
  have ne: "[passed_test] \<noteq> []" by simp
  note u = report_success_rate[where rt = sample_runtime and project_config = sample_config
      and tests = "[passed_test]" and issues = "[]" and build_success = True,
      THEN conjunct2, THEN conjunct2, THEN conjunct2, THEN conjunct1, THEN mp, OF ne]
  have a: "generate_html sample_runtime sample_config [] [] True =
     Inr (html_head sample_runtime sample_config True 0 0 0 ''0.0'' 0 ''0'' @
          tests_close @ html_foot sample_runtime)"
    using t unfolding empty_counts shown_issues_Nil by (simp only: append_Nil)
  have b: "generate_html sample_runtime sample_config [passed_test] [] True =
     Inr (html_head sample_runtime sample_config True 1 1 0 ''100/1'' 0 ''100/1'' @
          shown_tests sample_runtime [passed_test] @ tests_close @ html_foot sample_runtime)"
    using u unfolding passed_test_counts empty_counts sample_rate shown_issues_Nil
    by (simp only: append_Nil)
  from a b show ?thesis by (rule conjI)
qed

text \<open>
  Claim C5. The document depends on the diagnostics only through their number and
  the first 100 of them: two lists of 120 records that differ in the severities of
  the records not displayed, and so in their severity counts, give the same document.
  No severity count is rendered.
\<close>

theorem report_omits_severity_counts:
  "generate_html sample_runtime sample_config []
     (replicate 100 warning_issue @ replicate 20 critical_issue) True =
   generate_html sample_runtime sample_config [] (replicate 120 warning_issue) True \<and>
   count_severity ''critical'' (replicate 100 warning_issue @ replicate 20 critical_issue) = 20 \<and>
   count_severity ''critical'' (replicate 120 warning_issue) = 0"
proof (intro conjI)
  show "generate_html sample_runtime sample_config []
     (replicate 100 warning_issue @ replicate 20 critical_issue) True =
   generate_html sample_runtime sample_config [] (replicate 120 warning_issue) True"
    by (rule generate_html_hidden) simp_all
  show "count_severity ''critical'' (replicate 100 warning_issue @ replicate 20 critical_issue) = 20"
    by (simp add: count_severity_def severity_samples)
  show "count_severity ''critical'' (replicate 120 warning_issue) = 0"
    by (simp add: count_severity_def severity_samples)
qed

lemma str_int_20: "str_int (120 - 100) = ''20''"
  by code_simp

text \<open>
  The truncation itself: with more than 100 diagnostics the document shows the first
  100 in their order, then one item with the number of the others; the head carries
  the number of all diagnostics and the counts over all outcomes. Outcomes are shown
  the same way with a cap of 50. For 120 records the item reads \<open>20 more issues\<close>.
\<close>

theorem report_truncates_display:
  \<open>(100 < length issues \<longrightarrow>
      generate_html rt project_config tests issues build_success =
        Inr (html_head rt project_config build_success
               (count_status ''passed'' tests) (int (length tests)) (count_status ''failed'' tests)
               (format_1f rt (rate_value rt (count_status ''passed'' tests) (int (length tests))))
               (int (length issues))
               (str_num rt (rate_value rt (count_status ''passed'' tests) (int (length tests)))) @
             shown_tests rt tests @ tests_close @
             issues_open rt @ concat (map (issue_item rt) (take 100 issues)) @
             more_issues (int (length issues)) @ issues_close @ html_foot rt)) \<and>
   (50 < length tests \<longrightarrow>
      shown_tests rt tests =
        concat (map (test_item rt) (take 50 tests)) @ more_tests (int (length tests))) \<and>
   (length tests \<le> 50 \<longrightarrow> shown_tests rt tests = concat (map (test_item rt) tests)) \<and>
   more_issues 120 =
      ''\<newline>'' @
      ''                    <li class="issue-item info">\<newline>'' @
      ''                        <strong>... and '' @
      ''20'' @
      '' more issues</strong>\<newline>'' @
      ''                    </li>\<newline>''\<close>
proof (intro conjI impI)
  assume l: "100 < length issues"
  then have n: "issues \<noteq> []" by auto
  show "generate_html rt project_config tests issues build_success =
        Inr (html_head rt project_config build_success
               (count_status ''passed'' tests) (int (length tests)) (count_status ''failed'' tests)
               (format_1f rt (rate_value rt (count_status ''passed'' tests) (int (length tests))))
               (int (length issues))
               (str_num rt (rate_value rt (count_status ''passed'' tests) (int (length tests)))) @
             shown_tests rt tests @ tests_close @
             issues_open rt @ concat (map (issue_item rt) (take 100 issues)) @
             more_issues (int (length issues)) @ issues_close @ html_foot rt)"
    unfolding generate_html_structure shown_issues_def using l n
    by (simp only: if_True if_False append_assoc)
next
  show "shown_tests rt tests =
        concat (map (test_item rt) (take 50 tests)) @ more_tests (int (length tests))"
    if "50 < length tests"
    unfolding shown_tests_def using that by (simp only: if_True)
  show "shown_tests rt tests = concat (map (test_item rt) tests)" if "length tests \<le> 50"
    unfolding shown_tests_def using that by simp
next
  show \<open>more_issues 120 =
      ''\<newline>'' @
      ''                    <li class="issue-item info">\<newline>'' @
      ''                        <strong>... and '' @
      ''20'' @
      '' more issues</strong>\<newline>'' @
      ''                    </li>\<newline>''\<close>
    unfolding more_issues_def str_int_20 by (rule refl)
qed

lemma rate_value_zero: "rate_value rt 0 0 = PyInt 0"
  by (simp add: rate_value_def)

theorem report_truncates_display_witness:
  "generate_html sample_runtime sample_config [] (replicate 120 warning_issue) True =
     Inr (html_head sample_runtime sample_config True 0 0 0 ''0.0'' 120 ''0'' @
          tests_close @ issues_open sample_runtime @
          concat (map (issue_item sample_runtime) (replicate 100 warning_issue)) @
          more_issues 120 @ issues_close @ html_foot sample_runtime)"
proof -
  have l: "100 < length (replicate 120 warning_issue)" by simp
  note t = report_truncates_display[where rt = sample_runtime and project_config = sample_config
      and tests = "[]" and issues = "replicate 120 warning_issue" and build_success = True,
      THEN conjunct1, THEN mp, OF l]
  have k: "take 100 (replicate 120 warning_issue) = replicate 100 warning_issue"
    "int (length (replicate 120 warning_issue)) = 120" by simp_all
  show ?thesis
    using t unfolding k empty_counts rate_value_zero format_1f_zero str_num_zero shown_tests_Nil
    by (simp only: append_Nil)
qed

end
